theory Spec2Isabelle
  imports Main "HOL-Library.Sublist"
begin

section \<open>Python string primitives used by \<open>gen_class.py\<close>\<close>

text \<open>
  A Python string is a list of characters, each a code point below 256. The case
  mappings are Python's on ASCII text: \<open>upper_char\<close> and \<open>lower_char\<close> map the letters
  \<open>a..z\<close> / \<open>A..Z\<close> and leave every other character as it is, so \<open>capitalize\<close> is
  \<open>str.capitalize\<close> on strings of ASCII characters (\<open>ascii_text\<close>); outside ASCII
  Python consults the Unicode tables, and nothing is stated here. The claims that depend
  on the case mappings or on \<open>strip\<close> carry \<open>ascii_text\<close> as a hypothesis.
\<close>

definition ascii_text :: "string \<Rightarrow> bool" where
  "ascii_text s = list_all (\<lambda>c. (of_char c :: nat) < 128) s"

definition upper_char :: "char \<Rightarrow> char" where
  "upper_char c =
     (let n = (of_char c :: nat) in if 97 \<le> n \<and> n \<le> 122 then char_of (n - 32) else c)"

definition lower_char :: "char \<Rightarrow> char" where
  "lower_char c =
     (let n = (of_char c :: nat) in if 65 \<le> n \<and> n \<le> 90 then char_of (n + 32) else c)"

text \<open>\<open>str.capitalize()\<close>: the first character upper-cased, the rest lower-cased.\<close>

fun capitalize :: "string \<Rightarrow> string" where
  "capitalize [] = []"
| "capitalize (c # cs) = upper_char c # map lower_char cs"

text \<open>
  \<open>str.split(sep)\<close> with a one-character separator: every occurrence of the separator
  ends a piece, so a string with \<open>k\<close> separators gives \<open>k + 1\<close> pieces and the
  empty string gives the one empty piece.
\<close>

fun split_on :: "char \<Rightarrow> string \<Rightarrow> string list" where
  "split_on sep [] = [[]]"
| "split_on sep (c # cs) =
     (if c = sep then [] # split_on sep cs
      else (case split_on sep cs of
              [] \<Rightarrow> [[c]]
            | p # ps \<Rightarrow> (c # p) # ps))"

text \<open>
  \<open>str.isspace\<close> on one character (the whitespace code points below 256 are 9-13,
  28-32, 133 and 160), and \<open>str.strip()\<close>.
\<close>

definition is_space :: "char \<Rightarrow> bool" where
  "is_space c =
     (let n = (of_char c :: nat)
      in n = 32 \<or> (9 \<le> n \<and> n \<le> 13) \<or> (28 \<le> n \<and> n \<le> 31) \<or> n = 133 \<or> n = 160)"

definition strip :: "string \<Rightarrow> string" where
  "strip s = rev (dropWhile is_space (rev (dropWhile is_space s)))"

text \<open>\<open>sep.join(xs)\<close>.\<close>

fun join :: "string \<Rightarrow> string list \<Rightarrow> string" where
  "join sep [] = []"
| "join sep [x] = x"
| "join sep (x # y # ys) = x @ sep @ join sep (y # ys)"

section \<open>The class name (\<open>GenClass.__init__\<close>, lines 49-51)\<close>

text \<open>
  \<^verbatim>\<open>self._name_class = "".join(
      part_name.capitalize() for part_name in self._name_file.split("_"))\<close>
\<close>

definition name_class_of :: "string \<Rightarrow> string" where
  "name_class_of name_file = concat (map capitalize (split_on (CHR ''_'') name_file))"

text \<open>
  The derivation in the words of the specification: only the first character of each
  segment is changed.
\<close>

fun spec_cap_first :: "string \<Rightarrow> string" where
  "spec_cap_first [] = []"
| "spec_cap_first (c # cs) = upper_char c # cs"

definition spec_derive_class_name :: "string \<Rightarrow> string" where
  "spec_derive_class_name stem = concat (map spec_cap_first (split_on (CHR ''_'') stem))"

text \<open>
  \<open>str.replace(old, new)\<close>: every non-overlapping occurrence of \<open>old\<close>, found from
  the left, is replaced by \<open>new\<close>. (With an empty \<open>old\<close> Python inserts \<open>new\<close>
  before every character and at the end; the program never does that.)
\<close>

function (sequential) replace :: "string \<Rightarrow> string \<Rightarrow> string \<Rightarrow> string" where
  "replace [] new s = new @ concat (map (\<lambda>c. c # new) s)"
| "replace old new [] = []"
| "replace old new (c # cs) =
     (if prefix old (c # cs) then new @ replace old new (drop (length old) (c # cs))
      else c # replace old new cs)"
  by pat_completeness auto
termination
  by (relation "measure (\<lambda>(old, new, s). length s)") auto

text \<open>
  \<open>pydash.get(xs, i)\<close> on a list: the element at index \<open>i\<close>, or the default \<open>None\<close>
  when the index is out of range.
\<close>

definition pydash_get :: "'a list \<Rightarrow> nat \<Rightarrow> 'a option" where
  "pydash_get xs i = (if i < length xs then Some (xs ! i) else None)"

text \<open>
  A Python \<open>dict\<close> keeps its keys in insertion order; \<open>d[k] = v\<close> on a key that is
  already there replaces the value and keeps the key's place.
\<close>

fun dict_set :: "('k \<times> 'v) list \<Rightarrow> 'k \<Rightarrow> 'v \<Rightarrow> ('k \<times> 'v) list" where
  "dict_set [] k v = [(k, v)]"
| "dict_set ((k', v') # kvs) k v =
     (if k' = k then (k, v) # kvs else (k', v') # dict_set kvs k v)"

section \<open>The generator (\<open>class GenClass\<close>)\<close>

text \<open>
  What the code raises: \<open>open\<close> of a template file that is not there
  (\<open>FileNotFoundError\<close>), \<open>None.split("=")\<close> on a parameter token without \<open>:\<close>
  (\<open>AttributeError\<close>), and \<open>os.makedirs\<close> or \<open>open(path, "w")\<close> refused by the
  operating system. The last is an \<open>OSError\<close> of some subclass (\<open>PermissionError\<close>,
  \<open>IsADirectoryError\<close>, \<open>FileNotFoundError\<close> for a missing directory, ...); the model
  does not tell these apart and writes \<open>OSError\<close> for all of them, and keeps
  \<open>FileNotFoundError\<close> for the template that is not there.
\<close>

datatype error = FileNotFoundError | AttributeError | OSError

text \<open>
  The pickled template strings under \<open>src/templates\<close>, by file name, and the files the
  generator writes, by path. The templates themselves are not part of the sources; they
  are a parameter of every function that loads one.
\<close>

type_synonym templates = "string \<Rightarrow> string option"

type_synonym files = "string \<Rightarrow> string option"

text \<open>
  The operating system, as far as the generator meets it: whether \<open>os.makedirs(path,
  exist_ok=True)\<close> succeeds, and whether \<open>open(path, "w")\<close> succeeds (it does not when
  the directory of \<open>path\<close> is missing, as for the stem \<open>a/b\<close> in a fresh
  \<open>./gen_files\<close>, or when the path may not be written). It is a parameter of every
  function that creates a directory or opens a file for writing.
\<close>

record os_env =
  can_makedirs :: "string \<Rightarrow> bool"
  can_open_w :: "string \<Rightarrow> bool"

definition load_template :: "templates \<Rightarrow> string \<Rightarrow> error + string" where
  "load_template T name = (case T name of None \<Rightarrow> Inl FileNotFoundError | Some t \<Rightarrow> Inr t)"

text \<open>\<open>open(path, "w")\<close>: the file is created or truncated, or the call raises.\<close>

definition open_w :: "os_env \<Rightarrow> files \<Rightarrow> string \<Rightarrow> error + files" where
  "open_w E fs path = (if can_open_w E path then Inr (fs(path \<mapsto> [])) else Inl OSError)"

text \<open>\<open>file.write(s)\<close> on an open file appends \<open>s\<close>.\<close>

definition file_write :: "files \<Rightarrow> string \<Rightarrow> string \<Rightarrow> files" where
  "file_write fs path s = fs(path \<mapsto> (case fs path of None \<Rightarrow> s | Some old \<Rightarrow> old @ s))"

definition PATH_GEN_FILES :: string where
  "PATH_GEN_FILES = ''./gen_files''"

text \<open>The fields \<open>__init__\<close> sets (lines 45-51).\<close>

record gen_class_obj =
  name_file :: string
  attributes :: "(string \<times> string) list"
  methods :: "(string \<times> string) list"
  inherit :: string
  name_class :: string

definition init_fields ::
  "string \<Rightarrow> (string \<times> string) list \<Rightarrow> (string \<times> string) list \<Rightarrow> string \<Rightarrow> gen_class_obj" where
  "init_fields nf attrs meths inh =
     \<lparr> name_file = nf, attributes = attrs, methods = meths,
       inherit = (if inh \<noteq> [] then ''('' @ inh @ ''):'' else '':''),
       name_class = name_class_of nf \<rparr>"

definition set_tab :: "nat \<Rightarrow> nat \<Rightarrow> string" where
  "set_tab nb_tab spaces_by_tab = replicate (spaces_by_tab * nb_tab) (CHR '' '')"

definition get_accessors :: "templates \<Rightarrow> string \<Rightarrow> string \<Rightarrow> error + string" where
  "get_accessors T attribute_name attribute_type =
     (case load_template T ''accessors'' of
        Inl e \<Rightarrow> Inl e
      | Inr t \<Rightarrow> Inr (replace ''{attribute_type}'' attribute_type
                       (replace ''{attribute_name}'' attribute_name t)))"

definition desc_attr :: string where
  "desc_attr = ''Explain this attr...''"

definition msg_desc :: string where
  "msg_desc = ''Explain this...''"

definition get_attributes_strings :: "gen_class_obj \<Rightarrow> string \<times> string \<times> string" where
  "get_attributes_strings self =
     (let attributes_docstring =
            join [CHR 0x0A]
              (map (\<lambda>(attr_name, attr_type).
                      set_tab 3 4 @ attr_name @ '' ('' @ attr_type @ ''): '' @ desc_attr)
                   (attributes self));
          attributes_params =
            concat
              (map (\<lambda>(attr_name, attr_type).
                      '','' @ [CHR 0x0A] @ set_tab 2 4 @ attr_name @ '': '' @ attr_type)
                   (attributes self));
          attributes_init =
            join [CHR 0x0A]
              (map (\<lambda>(attr_name, attr_type).
                      set_tab 2 4 @ ''self._'' @ attr_name @ '': '' @ attr_type
                        @ '' = '' @ attr_name)
                   (attributes self))
      in (attributes_docstring, attributes_params, attributes_init))"

definition get_class :: "templates \<Rightarrow> gen_class_obj \<Rightarrow> error + string" where
  "get_class T self =
     (case get_attributes_strings self of
        (attributes_docstring, attributes_params, attributes_init) \<Rightarrow>
          (case load_template T ''class'' of
             Inl e \<Rightarrow> Inl e
           | Inr t \<Rightarrow>
               Inr (replace ''{attributes_init}'' attributes_init
                     (replace ''{attributes_docstring}'' attributes_docstring
                       (replace ''{attributes_params}'' attributes_params
                         (replace ''{class_name}'' (name_class self) t))))))"

text \<open>
  The body of the loop of \<open>_get_methods_dictionary\<close> (lines 208-220) on one token:
  the name, the type and the default value. \<open>get(param_split_name_type, 1)\<close> is \<open>None\<close>
  on a token without \<open>:\<close>, and \<open>None.split\<close> raises. \<open>split\<close> never returns an empty
  list, so \<open>get(..., 0)\<close> is the first piece (\<open>hd\<close>). An empty default is falsy and is
  kept as it is; \<open>strip\<close> of it is the same string.
\<close>

definition parse_param :: "string \<Rightarrow> error + (string \<times> string \<times> string option)" where
  "parse_param param =
     (let param_split_name_type = split_on (CHR '':'') param in
      case pydash_get param_split_name_type 1 of
        None \<Rightarrow> Inl AttributeError
      | Some rest \<Rightarrow>
          (let param_split_type_default_value = split_on (CHR ''='') rest;
               param_name = strip (hd param_split_name_type);
               param_type = strip (hd param_split_type_default_value);
               param_default_value =
                 (case pydash_get param_split_type_default_value 1 of
                    None \<Rightarrow> None
                  | Some d \<Rightarrow> if d \<noteq> [] then Some (strip d) else Some d)
           in Inr (param_name, param_type, param_default_value)))"

type_synonym params_dict = "(string \<times> (string \<times> string option)) list"

fun get_methods_dictionary_from :: "params_dict \<Rightarrow> string list \<Rightarrow> error + params_dict" where
  "get_methods_dictionary_from params [] = Inr params"
| "get_methods_dictionary_from params (param # rest) =
     (case parse_param param of
        Inl e \<Rightarrow> Inl e
      | Inr (param_name, param_type, param_default_value) \<Rightarrow>
          get_methods_dictionary_from
            (dict_set params param_name (param_type, param_default_value)) rest)"

definition get_methods_dictionary :: "string list \<Rightarrow> error + params_dict" where
  "get_methods_dictionary method_params = get_methods_dictionary_from [] method_params"

text \<open>
  \<open>_get_methods_strings\<close> (lines 161-195). \<open>get(params, "return.0", "None")\<close> is the
  first component of the entry under the key \<open>return\<close>, or the default.
\<close>

definition get_methods_strings ::
  "string list \<Rightarrow> error + (string \<times> string \<times> string \<times> string)" where
  "get_methods_strings method_params =
     (case get_methods_dictionary method_params of
        Inl e \<Rightarrow> Inl e
      | Inr params \<Rightarrow>
          (let return_type =
                 (case map_of params ''return'' of
                    None \<Rightarrow> ''None''
                  | Some v \<Rightarrow> fst v);
               returns_string =
                 (if return_type \<noteq> ''None''
                  then [CHR 0x0A, CHR 0x0A] @ set_tab 2 4 @ ''Returns:'' @ [CHR 0x0A]
                         @ set_tab 3 4 @ return_type @ '': '' @ msg_desc
                  else []);
               params_docstring =
                 join ([CHR 0x0A] @ set_tab 3 4)
                   (map (\<lambda>(k, v). k @ '' ('' @ fst v @ ''): '' @ msg_desc)
                      (filter (\<lambda>(k, v). k \<noteq> ''return'') params));
               method_params_list =
                 join ('','' @ [CHR 0x0A] @ set_tab 2 4)
                   (map strip (butlast method_params))
           in Inr (method_params_list, return_type, params_docstring, returns_string)))"

definition get_method :: "templates \<Rightarrow> string \<Rightarrow> string list \<Rightarrow> error + string" where
  "get_method T method_name method_params =
     (case get_methods_strings method_params of
        Inl e \<Rightarrow> Inl e
      | Inr (method_params_list, return_type, params_docstring, returns_string) \<Rightarrow>
          (case load_template T ''methods'' of
             Inl e \<Rightarrow> Inl e
           | Inr t \<Rightarrow>
               Inr (replace ''{returns_string}'' returns_string
                     (replace ''{params_docstring}'' params_docstring
                       (replace ''{return_type}'' return_type
                         (replace ''{method_params}'' method_params_list
                           (replace ''{method_name}'' method_name t)))))))"

definition create_folder_and_init_file :: "os_env \<Rightarrow> files \<Rightarrow> string \<Rightarrow> error + files" where
  "create_folder_and_init_file E fs path_folder =
     (if \<not> can_makedirs E path_folder then Inl OSError
      else (case open_w E fs (path_folder @ ''/__init__.py'') of
              Inl e \<Rightarrow> Inl e
            | Inr fs' \<Rightarrow> Inr (file_write fs' (path_folder @ ''/__init__.py'') [])))"

text \<open>
  The two \<open>for\<close> loops of \<open>_gen_class\<close> (lines 270-280): each block is rendered and
  written before the next one is rendered, and an exception leaves the loop with what
  was written so far in the file.
\<close>

fun write_each :: "('a \<Rightarrow> error + string) \<Rightarrow> 'a list \<Rightarrow> string \<Rightarrow> files \<Rightarrow> files \<times> (error + unit)" where
  "write_each render [] path fs = (fs, Inr ())"
| "write_each render (x # xs) path fs =
     (case render x of
        Inl e \<Rightarrow> (fs, Inl e)
      | Inr s \<Rightarrow> write_each render xs path (file_write fs path s))"

definition class_path :: "gen_class_obj \<Rightarrow> string" where
  "class_path self = PATH_GEN_FILES @ ''/'' @ name_file self @ ''.py''"

text \<open>
  The body of the \<open>with\<close> statement of \<open>_gen_class\<close> (lines 268-280), on the open class
  file: the header, then the accessor blocks, then the method blocks.
\<close>

definition write_class :: "templates \<Rightarrow> gen_class_obj \<Rightarrow> files \<Rightarrow> files \<times> (error + unit)" where
  "write_class T self fs1 =
     (case get_class T self of
        Inl e \<Rightarrow> (fs1, Inl e)
      | Inr header \<Rightarrow>
          (case write_each (\<lambda>(attr_name, attr_type). get_accessors T attr_name attr_type)
                  (attributes self) (class_path self) (file_write fs1 (class_path self) header) of
             (fs2, Inl e) \<Rightarrow> (fs2, Inl e)
           | (fs2, Inr u) \<Rightarrow>
               write_each
                 (\<lambda>(method_name, method_params).
                    get_method T method_name (split_on (CHR '','') method_params))
                 (methods self) (class_path self) fs2))"

text \<open>
  \<open>_gen_class\<close> (lines 264-280): the folder and its \<open>__init__.py\<close>, then the class
  file is opened, then its body is written.
\<close>

definition gen_class ::
  "os_env \<Rightarrow> templates \<Rightarrow> gen_class_obj \<Rightarrow> files \<Rightarrow> files \<times> (error + unit)" where
  "gen_class E T self fs =
     (case create_folder_and_init_file E fs PATH_GEN_FILES of
        Inl e \<Rightarrow> (fs, Inl e)
      | Inr fs0 \<Rightarrow>
          (case open_w E fs0 (class_path self) of
             Inl e \<Rightarrow> (fs0, Inl e)
           | Inr fs1 \<Rightarrow> write_class T self fs1))"

definition get_method_tests :: "templates \<Rightarrow> gen_class_obj \<Rightarrow> string \<Rightarrow> string \<Rightarrow> error + string" where
  "get_method_tests T self method_name method_params =
     (let params =
            join ('','' @ [CHR 0x0A] @ set_tab 2 4 @ ''#'' @ set_tab 1 4)
              (map (\<lambda>param. hd (split_on (CHR '':'') param))
                 (butlast (split_on (CHR '','') method_params)))
      in case load_template T ''methods_tests'' of
           Inl e \<Rightarrow> Inl e
         | Inr t \<Rightarrow>
             Inr (replace ''{params}'' params
                   (replace ''{class_name}'' (name_class self)
                     (replace ''{class_file}'' (name_file self)
                       (replace ''{method_name}'' method_name t)))))"

definition get_class_tests :: "templates \<Rightarrow> gen_class_obj \<Rightarrow> string \<Rightarrow> error + string" where
  "get_class_tests T self methods_for_tests =
     (case load_template T ''tests'' of
        Inl e \<Rightarrow> Inl e
      | Inr t \<Rightarrow>
          Inr (replace ''{file_name}'' (name_file self)
                (replace ''{methods_for_tests}'' methods_for_tests
                  (replace ''{class_name}'' (name_class self) t))))"

text \<open>
  \<open>"".join(self._get_method_tests(...) for ... in self._methods.items())\<close>: the stubs
  in method order, or the first exception.
\<close>

fun join_method_tests :: "templates \<Rightarrow> gen_class_obj \<Rightarrow> (string \<times> string) list \<Rightarrow> error + string" where
  "join_method_tests T self [] = Inr []"
| "join_method_tests T self ((method_name, method_params) # rest) =
     (case get_method_tests T self method_name method_params of
        Inl e \<Rightarrow> Inl e
      | Inr s \<Rightarrow>
          (case join_method_tests T self rest of
             Inl e \<Rightarrow> Inl e
           | Inr ss \<Rightarrow> Inr (s @ ss)))"

definition tests_path :: "gen_class_obj \<Rightarrow> string" where
  "tests_path self = PATH_GEN_FILES @ ''/tests_unittest'' @ ''/test_'' @ name_file self @ ''.py''"

text \<open>
  The body of the \<open>with\<close> statement of \<open>_gen_unit_tests\<close> (lines 367-375), on the open
  test file.
\<close>

definition write_tests :: "templates \<Rightarrow> gen_class_obj \<Rightarrow> files \<Rightarrow> files \<times> (error + unit)" where
  "write_tests T self fs3 =
     (case join_method_tests T self (methods self) of
        Inl e \<Rightarrow> (fs3, Inl e)
      | Inr result_methods \<Rightarrow>
          (case get_class_tests T self result_methods of
             Inl e \<Rightarrow> (fs3, Inl e)
           | Inr s \<Rightarrow> (file_write fs3 (tests_path self) s, Inr ())))"

text \<open>The local variables \<open>path_tests\<close> and \<open>path_assets\<close> of \<open>_gen_unit_tests\<close>.\<close>

definition path_tests :: string where
  "path_tests = PATH_GEN_FILES @ ''/tests_unittest''"

definition path_assets :: string where
  "path_assets = path_tests @ ''/assets''"

definition gen_unit_tests ::
  "os_env \<Rightarrow> templates \<Rightarrow> gen_class_obj \<Rightarrow> files \<Rightarrow> files \<times> (error + unit)" where
  "gen_unit_tests E T self fs =
     (case create_folder_and_init_file E fs path_tests of
        Inl e \<Rightarrow> (fs, Inl e)
      | Inr fs1 \<Rightarrow>
          (case create_folder_and_init_file E fs1 path_assets of
             Inl e \<Rightarrow> (fs1, Inl e)
           | Inr fs2 \<Rightarrow>
               (case open_w E fs2 (tests_path self) of
                  Inl e \<Rightarrow> (fs2, Inl e)
                | Inr fs3 \<Rightarrow> write_tests T self fs3)))"

text \<open>\<open>GenClass(name_file, attributes, methods, inherit)\<close>: the constructor.\<close>

definition GenClass ::
  "os_env \<Rightarrow> templates \<Rightarrow> string \<Rightarrow> (string \<times> string) list \<Rightarrow> (string \<times> string) list
     \<Rightarrow> string \<Rightarrow> files \<Rightarrow> files \<times> (error + unit)" where
  "GenClass E T nf attrs meths inh fs =
     (let self = init_fields nf attrs meths inh in
      case gen_class E T self fs of
        (fs1, Inl e) \<Rightarrow> (fs1, Inl e)
      | (fs1, Inr u) \<Rightarrow> gen_unit_tests E T self fs1)"

section \<open>The operating system and the open files\<close>

text \<open>
  What the operating system has to allow for the class file, and for the test file, to
  be opened: the folders, their \<open>__init__.py\<close> files and the file itself. A
  \<open>write\<close> on an open file is taken to succeed (the disk is not full, and the files
  are written in an encoding that has every character of the text).
\<close>

definition can_write_class :: "os_env \<Rightarrow> gen_class_obj \<Rightarrow> bool" where
  "can_write_class E self \<longleftrightarrow>
     can_makedirs E PATH_GEN_FILES \<and> can_open_w E (PATH_GEN_FILES @ ''/__init__.py'')
     \<and> can_open_w E (class_path self)"

definition can_write_tests :: "os_env \<Rightarrow> gen_class_obj \<Rightarrow> bool" where
  "can_write_tests E self \<longleftrightarrow>
     can_makedirs E path_tests \<and> can_open_w E (path_tests @ ''/__init__.py'')
     \<and> can_makedirs E path_assets \<and> can_open_w E (path_assets @ ''/__init__.py'')
     \<and> can_open_w E (tests_path self)"

text \<open>An operating system that refuses nothing.\<close>

definition permissive :: os_env where
  "permissive = \<lparr> can_makedirs = (\<lambda>p. True), can_open_w = (\<lambda>p. True) \<rparr>"

text \<open>
  The files at the moment the class file has just been opened (the folder's
  \<open>__init__.py\<close> written, the class file empty), and at the moment the test file has
  just been opened.
\<close>

definition class_file_opened :: "files \<Rightarrow> gen_class_obj \<Rightarrow> files" where
  "class_file_opened fs self =
     (fs(PATH_GEN_FILES @ ''/__init__.py'' \<mapsto> []))(class_path self \<mapsto> [])"

definition tests_file_opened :: "files \<Rightarrow> gen_class_obj \<Rightarrow> files" where
  "tests_file_opened fs self =
     ((fs(path_tests @ ''/__init__.py'' \<mapsto> []))(path_assets @ ''/__init__.py'' \<mapsto> []))
       (tests_path self \<mapsto> [])"

text \<open>
  Every block of the class file renders (the header, the accessor block of each
  attribute, the method block of each method), and every block of the test file renders
  (the stub of each method, then the test class around the joined stubs).
\<close>

definition renders_class ::
  "templates \<Rightarrow> gen_class_obj \<Rightarrow> string \<Rightarrow> string list \<Rightarrow> string list \<Rightarrow> bool" where
  "renders_class T self header accs ms \<longleftrightarrow>
     get_class T self = Inr header
   \<and> list_all2 (\<lambda>a s. get_accessors T (fst a) (snd a) = Inr s) (attributes self) accs
   \<and> list_all2 (\<lambda>m s. get_method T (fst m) (split_on (CHR '','') (snd m)) = Inr s)
        (methods self) ms"

definition renders_tests ::
  "templates \<Rightarrow> gen_class_obj \<Rightarrow> string list \<Rightarrow> string \<Rightarrow> bool" where
  "renders_tests T self stubs tests \<longleftrightarrow>
     list_all2 (\<lambda>m s. get_method_tests T self (fst m) (snd m) = Inr s) (methods self) stubs
   \<and> get_class_tests T self (concat stubs) = Inr tests"

section \<open>The specification's parameter parser\<close>



section \<open>Templates and placeholder tokens\<close>

text \<open>
  A template that contains only the placeholder tokens enumerated for it is a sequence of
  literal text without \<open>{\<close> and of tokens \<open>{name}\<close> with \<open>name\<close> among the allowed
  names: every \<open>{\<close> of the template opens one of its tokens. \<open>contains sub s\<close> says that
  \<open>sub\<close> occurs in \<open>s\<close>; \<open>subst_segment\<close> is the substitution of one token by a text.
\<close>

datatype segment = Lit string | Tok string

fun render_segment :: "segment \<Rightarrow> string" where
  "render_segment (Lit s) = s"
| "render_segment (Tok n) = ''{'' @ n @ ''}''"

definition template_text :: "segment list \<Rightarrow> string" where
  "template_text segs = concat (map render_segment segs)"

fun segment_ok :: "string list \<Rightarrow> segment \<Rightarrow> bool" where
  "segment_ok allowed (Lit s) = (CHR ''{'' \<notin> set s)"
| "segment_ok allowed (Tok n) = (n \<in> set allowed)"

definition only_tokens :: "string list \<Rightarrow> segment list \<Rightarrow> bool" where
  "only_tokens allowed segs = list_all (segment_ok allowed) segs"

fun contains :: "string \<Rightarrow> string \<Rightarrow> bool" where
  "contains sub [] = (sub = [])"
| "contains sub (c # cs) = (prefix sub (c # cs) \<or> contains sub cs)"

fun subst_segment :: "string \<Rightarrow> string \<Rightarrow> segment \<Rightarrow> segment" where
  "subst_segment n v (Lit s) = Lit s"
| "subst_segment n v (Tok m) = (if m = n then Lit v else Tok m)"

definition plain_name :: "string \<Rightarrow> bool" where
  "plain_name n \<longleftrightarrow> CHR ''{'' \<notin> set n \<and> CHR ''}'' \<notin> set n"

text \<open>An entry of the parameter dictionary whose name and type have no \<open>{\<close>.\<close>

definition entry_plain :: "string \<times> string \<times> string option \<Rightarrow> bool" where
  "entry_plain e \<longleftrightarrow> CHR ''{'' \<notin> set (fst e) \<and> CHR ''{'' \<notin> set (fst (snd e))"

text \<open>
  The placeholder tokens enumerated for each template: the ones its renderer replaces
  (\<open>_get_class\<close>, \<open>_get_accessors\<close>, \<open>_get_method\<close>, \<open>_get_method_tests\<close>,
  \<open>_get_class_tests\<close>).
\<close>

definition class_tokens :: "string list" where
  "class_tokens =
     [''class_name'', ''attributes_params'', ''attributes_docstring'', ''attributes_init'']"

definition accessors_tokens :: "string list" where
  "accessors_tokens = [''attribute_name'', ''attribute_type'']"

definition methods_tokens :: "string list" where
  "methods_tokens =
     [''method_name'', ''method_params'', ''return_type'', ''params_docstring'',
      ''returns_string'']"

definition methods_tests_tokens :: "string list" where
  "methods_tests_tokens = [''method_name'', ''class_file'', ''class_name'', ''params'']"

definition tests_tokens :: "string list" where
  "tests_tokens = [''class_name'', ''methods_for_tests'', ''file_name'']"

text \<open>A name and a text without \<open>{\<close>, as a pair.\<close>

definition pair_plain :: "string \<times> string \<Rightarrow> bool" where
  "pair_plain p \<longleftrightarrow> CHR ''{'' \<notin> set (fst p) \<and> CHR ''{'' \<notin> set (snd p)"

section \<open>Facts about the string primitives\<close>

lemma split_on_not_Nil [simp]: "split_on sep s \<noteq> []"
  by (induction s) (auto split: list.splits)


lemma split_on_no_sep: "sep \<notin> set s \<Longrightarrow> split_on sep s = [s]"
  by (induction s) auto

lemma split_on_append_sep:
  "sep \<notin> set p \<Longrightarrow> split_on sep (p @ sep # s) = p # split_on sep s"
  by (induction p) auto

lemma split_on_replicate_sep: "split_on sep (replicate n sep) = replicate (Suc n) []"
  by (induction n) auto

lemma lower_char_underscore_iff: "lower_char c = CHR ''_'' \<longleftrightarrow> c = CHR ''_''"
proof
  assume h: "lower_char c = CHR ''_''"
  show "c = CHR ''_''"
  proof (cases "65 \<le> (of_char c :: nat) \<and> (of_char c :: nat) \<le> 90")
    case True
    then have "lower_char c = char_of ((of_char c :: nat) + 32)"
      by (simp add: lower_char_def)
    with h have "(of_char (char_of ((of_char c :: nat) + 32)) :: nat) = of_char (CHR ''_'')"
      by simp
    with True show ?thesis by simp
  next
    case False
    then have "lower_char c = c"
      by (auto simp: lower_char_def Let_def)
    with h show ?thesis by simp
  qed
next
  assume "c = CHR ''_''"
  then show "lower_char c = CHR ''_''"
    by (simp add: lower_char_def)
qed

lemma split_on_map_lower:
  "split_on (CHR ''_'') (map lower_char s) = map (map lower_char) (split_on (CHR ''_'') s)"
proof (induction s)
  case Nil
  show ?case by simp
next
  case (Cons c cs)
  show ?case
  proof (cases "c = CHR ''_''")
    case True
    then have "lower_char c = CHR ''_''"
      by (simp add: lower_char_underscore_iff)
    with True Cons show ?thesis by simp
  next
    case False
    then have "lower_char c \<noteq> CHR ''_''"
      by (simp add: lower_char_underscore_iff)
    with False Cons show ?thesis
      by (cases "split_on (CHR ''_'') cs") auto
  qed
qed

lemma upper_lower_char: "upper_char (lower_char c) = upper_char c"
proof (cases "65 \<le> (of_char c :: nat) \<and> (of_char c :: nat) \<le> 90")
  case True
  then have l: "lower_char c = char_of ((of_char c :: nat) + 32)"
    by (simp add: lower_char_def)
  from True have "(of_char (lower_char c) :: nat) = of_char c + 32"
    unfolding l by simp
  with True have "upper_char (lower_char c) = char_of (of_char c :: nat)"
    by (simp add: upper_char_def)
  moreover from True have "upper_char c = c"
    by (simp add: upper_char_def)
  ultimately show ?thesis by simp
next
  case False
  then have "lower_char c = c"
    by (auto simp: lower_char_def Let_def)
  then show ?thesis by simp
qed

lemma capitalize_eq_spec_cap_first: "capitalize s = spec_cap_first (map lower_char s)"
  by (cases s) (simp_all add: upper_lower_char)

lemma name_class_of_lower: "name_class_of stem = spec_derive_class_name (map lower_char stem)"
proof -
  have "map capitalize xs = map spec_cap_first (map (map lower_char) xs)" for xs
    by (induction xs) (simp_all add: capitalize_eq_spec_cap_first)
  then have "concat (map capitalize (split_on (CHR ''_'') stem))
      = concat (map spec_cap_first (map (map lower_char) (split_on (CHR ''_'') stem)))"
    by (simp only:)
  then show ?thesis
    by (simp only: name_class_of_def spec_derive_class_name_def split_on_map_lower)
qed

lemma name_class_of_underscores: "name_class_of (replicate n (CHR ''_'')) = []"
  by (simp add: name_class_of_def split_on_replicate_sep)

section \<open>Facts about the parameter parser\<close>

lemma hd_split_on: "hd (split_on sep s) = takeWhile (\<lambda>c. c \<noteq> sep) s"
  by (induction s) (auto split: list.splits)

lemma split_on_unfold:
  "split_on sep s = takeWhile (\<lambda>c. c \<noteq> sep) s #
     (if sep \<in> set s then split_on sep (tl (dropWhile (\<lambda>c. c \<noteq> sep) s)) else [])"
  by (induction s) (auto split: list.splits)

lemma pydash_get_split_on_1:
  "pydash_get (split_on sep s) (Suc 0) =
     (if sep \<in> set s
      then Some (takeWhile (\<lambda>c. c \<noteq> sep) (tl (dropWhile (\<lambda>c. c \<noteq> sep) s)))
      else None)"
proof -
  have "pydash_get (x # xs) (Suc 0) = (if xs = [] then None else Some (hd xs))" for x :: string and xs
    by (cases xs) (simp_all add: pydash_get_def)
  then show ?thesis
    by (subst split_on_unfold) (simp add: hd_split_on)
qed

lemma strip_Nil [simp]: "strip [] = []"
  by (simp add: strip_def)



lemma parse_param_takeWhile:
  "parse_param token =
     (if CHR '':'' \<in> set token
      then (let rest = takeWhile (\<lambda>c. c \<noteq> CHR '':'') (tl (dropWhile (\<lambda>c. c \<noteq> CHR '':'') token))
            in Inr (strip (takeWhile (\<lambda>c. c \<noteq> CHR '':'') token),
                    strip (takeWhile (\<lambda>c. c \<noteq> CHR ''='') rest),
                    if CHR ''='' \<in> set rest
                    then Some (strip (takeWhile (\<lambda>c. c \<noteq> CHR ''='')
                                       (tl (dropWhile (\<lambda>c. c \<noteq> CHR ''='') rest))))
                    else None))
      else Inl AttributeError)"
  by (simp add: parse_param_def pydash_get_split_on_1 hd_split_on Let_def)



section \<open>Facts about the parameter dictionary and the method strings\<close>

lemma map_of_dict_set: "map_of (dict_set d k v) = (map_of d)(k \<mapsto> v)"
  by (induction d k v rule: dict_set.induct) auto


lemma get_methods_dictionary_from_Inr:
  "get_methods_dictionary_from params toks = Inr d \<Longrightarrow>
     \<exists>es. map parse_param toks = map Inr es
        \<and> d = foldl (\<lambda>d e. dict_set d (fst e) (snd e)) params es"
proof (induction toks arbitrary: params)
  case Nil
  then show ?case by simp
next
  case (Cons tok toks)
  from Cons.prems obtain e where p: "parse_param tok = Inr e"
    by (auto split: sum.splits)
  with Cons.prems have "get_methods_dictionary_from (dict_set params (fst e) (snd e)) toks = Inr d"
    by (cases e) simp
  from Cons.IH [OF this] obtain es where
    es: "map parse_param toks = map Inr es"
      "d = foldl (\<lambda>d e. dict_set d (fst e) (snd e)) (dict_set params (fst e) (snd e)) es"
    by blast
  show ?case
    by (rule exI [of _ "e # es"]) (simp add: p es)
qed

lemma get_methods_dictionary_from_total:
  "map parse_param toks = map Inr es \<Longrightarrow>
     get_methods_dictionary_from params toks
       = Inr (foldl (\<lambda>d e. dict_set d (fst e) (snd e)) params es)"
proof (induction toks arbitrary: params es)
  case Nil
  then show ?case by simp
next
  case (Cons tok toks)
  then obtain e es' where es: "es = e # es'" by (cases es) auto
  from Cons.prems es have "parse_param tok = Inr e" "map parse_param toks = map Inr es'"
    by simp_all
  with Cons.IH [of es'] show ?case
    by (cases e) (simp add: es)
qed

lemma map_of_foldl_dict_set:
  "map_of (foldl (\<lambda>d e. dict_set d (fst e) (snd e)) params es) k =
     (case filter (\<lambda>e. fst e = k) es of
        [] \<Rightarrow> map_of params k
      | e # es' \<Rightarrow> Some (snd (last (e # es'))))"
proof (induction es arbitrary: params)
  case Nil
  show ?case by simp
next
  case (Cons e es)
  show ?case
    by (simp add: Cons.IH map_of_dict_set split: list.splits)
qed


lemma set_tab_1_4: "set_tab (Suc 0) 4 = ''    ''"
  by (simp add: set_tab_def eval_nat_numeral)

lemma set_tab_2_4: "set_tab 2 4 = ''        ''"
  by (simp add: set_tab_def eval_nat_numeral)

lemma set_tab_3_4: "set_tab 3 4 = ''            ''"
  by (simp add: set_tab_def eval_nat_numeral)

lemmas set_tab_eval = set_tab_1_4 set_tab_2_4 set_tab_3_4

lemma get_methods_strings_total:
  assumes "map parse_param toks = map Inr es"
  shows "get_methods_strings toks =
     Inr (join ('','' @ [CHR 0x0A] @ set_tab 2 4) (map strip (butlast toks)),
          (case filter (\<lambda>e. fst e = ''return'') es of
             [] \<Rightarrow> ''None''
           | e # es' \<Rightarrow> fst (snd (last (e # es')))),
          join ([CHR 0x0A] @ set_tab 3 4)
            (map (\<lambda>(k, v). k @ '' ('' @ fst v @ ''): '' @ msg_desc)
               (filter (\<lambda>(k, v). k \<noteq> ''return'')
                  (foldl (\<lambda>d e. dict_set d (fst e) (snd e)) [] es))),
          (if (case filter (\<lambda>e. fst e = ''return'') es of
                 [] \<Rightarrow> ''None''
               | e # es' \<Rightarrow> fst (snd (last (e # es')))) \<noteq> ''None''
           then [CHR 0x0A, CHR 0x0A] @ set_tab 2 4 @ ''Returns:'' @ [CHR 0x0A]
                  @ set_tab 3 4
                  @ (case filter (\<lambda>e. fst e = ''return'') es of
                       [] \<Rightarrow> ''None''
                     | e # es' \<Rightarrow> fst (snd (last (e # es'))))
                  @ '': '' @ msg_desc
           else []))"
proof -
  have d: "get_methods_dictionary toks = Inr (foldl (\<lambda>d e. dict_set d (fst e) (snd e)) [] es)"
    unfolding get_methods_dictionary_def
    using assms by (rule get_methods_dictionary_from_total)
  have r: "(case map_of (foldl (\<lambda>d e. dict_set d (fst e) (snd e)) [] es) ''return'' of
              None \<Rightarrow> ''None'' | Some v \<Rightarrow> fst v)
         = (case filter (\<lambda>e. fst e = ''return'') es of
              [] \<Rightarrow> ''None'' | e # es' \<Rightarrow> fst (snd (last (e # es'))))"
    by (simp only: map_of_foldl_dict_set) (simp split: list.splits)
  show ?thesis
    unfolding get_methods_strings_def d sum.case Let_def r ..
qed

lemma get_methods_strings_parsed:
  "get_methods_strings toks = Inr r \<Longrightarrow> \<exists>es. map parse_param toks = map Inr es"
  unfolding get_methods_strings_def get_methods_dictionary_def
  by (auto split: sum.splits dest: get_methods_dictionary_from_Inr)

section \<open>Facts about the written files\<close>

lemma file_write_Some: "fs path = Some c \<Longrightarrow> file_write fs path s = fs(path \<mapsto> c @ s)"
  by (simp add: file_write_def)

lemma write_each_ok:
  "list_all2 (\<lambda>x s. render x = Inr s) xs ss \<Longrightarrow> fs path = Some c \<Longrightarrow>
     write_each render xs path fs = (fs(path \<mapsto> c @ concat ss), Inr ())"
proof (induction xs ss arbitrary: fs c rule: list_all2_induct)
  case Nil
  then show ?case by (simp add: map_upd_triv)
next
  case (Cons x xs s ss)
  have fw: "file_write fs path s = fs(path \<mapsto> c @ s)"
    using Cons.prems by (rule file_write_Some)
  have "(fs(path \<mapsto> c @ s)) path = Some (c @ s)"
    by simp
  then have "write_each render xs path (fs(path \<mapsto> c @ s))
      = ((fs(path \<mapsto> c @ s))(path \<mapsto> (c @ s) @ concat ss), Inr ())"
    by (rule Cons.IH)
  then have "write_each render xs path (fs(path \<mapsto> c @ s))
      = (fs(path \<mapsto> c @ concat (s # ss)), Inr ())"
    by simp
  then show ?case
    by (simp only: write_each.simps Cons.hyps(1) sum.case fw)
qed

lemma write_each_fail:
  "list_all2 (\<lambda>x s. render x = Inr s) pre ss \<Longrightarrow> render x = Inl e \<Longrightarrow> fs path = Some c \<Longrightarrow>
     write_each render (pre @ x # post) path fs = (fs(path \<mapsto> c @ concat ss), Inl e)"
proof (induction pre ss arbitrary: fs c rule: list_all2_induct)
  case Nil
  then show ?case by (simp add: map_upd_triv)
next
  case (Cons y ys s ss)
  have fw: "file_write fs path s = fs(path \<mapsto> c @ s)"
    using Cons.prems(2) by (rule file_write_Some)
  have "(fs(path \<mapsto> c @ s)) path = Some (c @ s)"
    by simp
  with Cons.prems(1) have "write_each render (ys @ x # post) path (fs(path \<mapsto> c @ s))
      = ((fs(path \<mapsto> c @ s))(path \<mapsto> (c @ s) @ concat ss), Inl e)"
    by (rule Cons.IH)
  then have "write_each render (ys @ x # post) path (fs(path \<mapsto> c @ s))
      = (fs(path \<mapsto> c @ concat (s # ss)), Inl e)"
    by simp
  then show ?case
    by (simp only: append_Cons write_each.simps Cons.hyps(1) sum.case fw)
qed

lemma write_each_Inr_D:
  "write_each render xs path fs = (fs', Inr u) \<Longrightarrow>
     \<exists>ss. list_all2 (\<lambda>x s. render x = Inr s) xs ss"
proof (induction xs arbitrary: fs)
  case Nil
  show ?case by simp
next
  case (Cons x xs)
  from Cons.prems obtain s where s: "render x = Inr s"
    by (auto split: sum.splits)
  with Cons.prems have "write_each render xs path (file_write fs path s) = (fs', Inr u)"
    by simp
  from Cons.IH [OF this] obtain ss where "list_all2 (\<lambda>x s. render x = Inr s) xs ss" ..
  with s have "list_all2 (\<lambda>x s. render x = Inr s) (x # xs) (s # ss)"
    by simp
  then show ?case ..
qed

lemma write_each_Inl_D:
  "write_each render xs path fs = (fs', Inl e) \<Longrightarrow>
     \<exists>pre x post ss. xs = pre @ x # post \<and> list_all2 (\<lambda>x s. render x = Inr s) pre ss
        \<and> render x = Inl e"
proof (induction xs arbitrary: fs)
  case Nil
  then show ?case by simp
next
  case (Cons x xs)
  show ?case
  proof (cases "render x")
    case (Inl e')
    with Cons.prems have "e' = e" by simp
    with Inl have "x # xs = [] @ x # xs \<and> list_all2 (\<lambda>x s. render x = Inr s) [] [] \<and> render x = Inl e"
      by simp
    then show ?thesis by blast
  next
    case (Inr s)
    with Cons.prems have "write_each render xs path (file_write fs path s) = (fs', Inl e)"
      by simp
    from Cons.IH [OF this] obtain pre y post ss where
      h: "xs = pre @ y # post" "list_all2 (\<lambda>x s. render x = Inr s) pre ss" "render y = Inl e"
      by blast
    from h Inr have "x # xs = (x # pre) @ y # post
        \<and> list_all2 (\<lambda>x s. render x = Inr s) (x # pre) (s # ss) \<and> render y = Inl e"
      by simp
    then show ?thesis by blast
  qed
qed

lemma create_folder_and_init_file_ok:
  "can_makedirs E p \<Longrightarrow> can_open_w E (p @ ''/__init__.py'') \<Longrightarrow>
     create_folder_and_init_file E fs p = Inr (fs(p @ ''/__init__.py'' \<mapsto> []))"
  by (simp add: create_folder_and_init_file_def open_w_def file_write_def)

lemma create_folder_and_init_file_fail:
  "\<not> (can_makedirs E p \<and> can_open_w E (p @ ''/__init__.py'')) \<Longrightarrow>
     create_folder_and_init_file E fs p = Inl OSError"
  by (auto simp: create_folder_and_init_file_def open_w_def)

lemma gen_class_entry:
  "can_write_class E self \<Longrightarrow>
     gen_class E T self fs = write_class T self (class_file_opened fs self)"
  by (simp add: gen_class_def can_write_class_def create_folder_and_init_file_ok open_w_def
      class_file_opened_def)

lemma gen_class_OSError:
  assumes "\<not> can_write_class E self"
  shows "gen_class E T self fs = (fs, Inl OSError)
       \<or> gen_class E T self fs = (fs(PATH_GEN_FILES @ ''/__init__.py'' \<mapsto> []), Inl OSError)"
proof (cases "can_makedirs E PATH_GEN_FILES \<and> can_open_w E (PATH_GEN_FILES @ ''/__init__.py'')")
  case True
  with assms have "\<not> can_open_w E (class_path self)"
    by (simp add: can_write_class_def)
  with True show ?thesis
    by (simp add: gen_class_def create_folder_and_init_file_ok open_w_def)
next
  case False
  then show ?thesis
    by (simp add: gen_class_def create_folder_and_init_file_fail)
qed

lemma gen_class_Inr_can_write:
  "gen_class E T self fs = (fs', Inr u) \<Longrightarrow> can_write_class E self"
  using gen_class_OSError [of E self T fs] by auto

lemma class_file_opened_empty: "class_file_opened fs self (class_path self) = Some []"
  by (simp add: class_file_opened_def)

lemma write_class_ok:
  assumes "get_class T self = Inr header"
    and "list_all2 (\<lambda>a s. get_accessors T (fst a) (snd a) = Inr s) (attributes self) accs"
    and "list_all2 (\<lambda>m s. get_method T (fst m) (split_on (CHR '','') (snd m)) = Inr s)
           (methods self) meths"
    and "fs1 (class_path self) = Some []"
  shows "write_class T self fs1 =
     (fs1(class_path self \<mapsto> header @ concat accs @ concat meths), Inr ())"
proof -
  have a: "list_all2 (\<lambda>x s. (case x of (n, t) \<Rightarrow> get_accessors T n t) = Inr s) (attributes self) accs"
    using assms(2) by (simp add: case_prod_unfold)
  have m: "list_all2 (\<lambda>x s. (case x of (n, p) \<Rightarrow> get_method T n (split_on (CHR '','') p)) = Inr s)
      (methods self) meths"
    using assms(3) by (simp add: case_prod_unfold)
  have h: "file_write fs1 (class_path self) header (class_path self) = Some header"
    by (simp add: file_write_def assms(4))
  note w1 = write_each_ok [of _ _ _ "file_write fs1 (class_path self) header"
      "class_path self" header, OF a h]
  have "((file_write fs1 (class_path self) header)(class_path self \<mapsto> header @ concat accs))
      (class_path self) = Some (header @ concat accs)"
    by simp
  note w2 = write_each_ok [of _ _ _
      "(file_write fs1 (class_path self) header)(class_path self \<mapsto> header @ concat accs)"
      "class_path self" "header @ concat accs", OF m this]
  show ?thesis
    unfolding write_class_def assms(1) sum.case w1 prod.case w2
    by (simp add: file_write_def)
qed

lemma write_class_header_fail:
  assumes "get_class T self = Inl e"
  shows "write_class T self fs1 = (fs1, Inl e)"
  unfolding write_class_def assms by simp

lemma write_class_accessor_fail:
  assumes "get_class T self = Inr header"
    and "attributes self = pre @ a # post"
    and "list_all2 (\<lambda>a s. get_accessors T (fst a) (snd a) = Inr s) pre accs"
    and "get_accessors T (fst a) (snd a) = Inl e"
    and "fs1 (class_path self) = Some []"
  shows "write_class T self fs1 = (fs1(class_path self \<mapsto> header @ concat accs), Inl e)"
proof -
  have a: "list_all2 (\<lambda>x s. (case x of (n, t) \<Rightarrow> get_accessors T n t) = Inr s) pre accs"
    using assms(3) by (simp add: case_prod_unfold)
  have f: "(case a of (n, t) \<Rightarrow> get_accessors T n t) = Inl e"
    using assms(4) by (simp add: case_prod_unfold)
  have h: "file_write fs1 (class_path self) header (class_path self) = Some header"
    by (simp add: file_write_def assms(5))
  note w1 = write_each_fail [of _ _ _ _ _ "file_write fs1 (class_path self) header"
      "class_path self" header post, OF a f h]
  show ?thesis
    unfolding write_class_def assms(1) assms(2) sum.case w1 prod.case
    by (simp add: file_write_def)
qed

lemma write_class_method_fail:
  assumes "get_class T self = Inr header"
    and "list_all2 (\<lambda>a s. get_accessors T (fst a) (snd a) = Inr s) (attributes self) accs"
    and "methods self = pre @ m # post"
    and "list_all2 (\<lambda>m s. get_method T (fst m) (split_on (CHR '','') (snd m)) = Inr s) pre meths"
    and "get_method T (fst m) (split_on (CHR '','') (snd m)) = Inl e"
    and "fs1 (class_path self) = Some []"
  shows "write_class T self fs1 =
     (fs1(class_path self \<mapsto> header @ concat accs @ concat meths), Inl e)"
proof -
  have a: "list_all2 (\<lambda>x s. (case x of (n, t) \<Rightarrow> get_accessors T n t) = Inr s) (attributes self) accs"
    using assms(2) by (simp add: case_prod_unfold)
  have m: "list_all2 (\<lambda>x s. (case x of (n, p) \<Rightarrow> get_method T n (split_on (CHR '','') p)) = Inr s)
      pre meths"
    using assms(4) by (simp add: case_prod_unfold)
  have f: "(case m of (n, p) \<Rightarrow> get_method T n (split_on (CHR '','') p)) = Inl e"
    using assms(5) by (simp add: case_prod_unfold)
  have h: "file_write fs1 (class_path self) header (class_path self) = Some header"
    by (simp add: file_write_def assms(6))
  note w1 = write_each_ok [of _ _ _ "file_write fs1 (class_path self) header"
      "class_path self" header, OF a h]
  have "((file_write fs1 (class_path self) header)(class_path self \<mapsto> header @ concat accs))
      (class_path self) = Some (header @ concat accs)"
    by simp
  note w2 = write_each_fail [of _ _ _ _ _
      "(file_write fs1 (class_path self) header)(class_path self \<mapsto> header @ concat accs)"
      "class_path self" "header @ concat accs" post, OF m f this]
  show ?thesis
    unfolding write_class_def assms(1) assms(3) sum.case w1 prod.case w2
    by (simp add: file_write_def)
qed

lemma write_class_Inr_D:
  assumes "write_class T self fs1 = (fs', Inr u)"
  shows "\<exists>header accs meths.
      get_class T self = Inr header
    \<and> list_all2 (\<lambda>a s. get_accessors T (fst a) (snd a) = Inr s) (attributes self) accs
    \<and> list_all2 (\<lambda>m s. get_method T (fst m) (split_on (CHR '','') (snd m)) = Inr s)
         (methods self) meths"
proof -
  from assms obtain header where h: "get_class T self = Inr header"
    unfolding write_class_def by (auto split: sum.splits)
  from assms h obtain fs2 u' where
    w1: "write_each (\<lambda>(attr_name, attr_type). get_accessors T attr_name attr_type)
          (attributes self) (class_path self)
          (file_write fs1 (class_path self) header) = (fs2, Inr u')"
    and w2: "write_each
          (\<lambda>(method_name, method_params).
              get_method T method_name (split_on (CHR '','') method_params))
          (methods self) (class_path self) fs2 = (fs', Inr u)"
    unfolding write_class_def by (auto split: sum.splits prod.splits)
  from write_each_Inr_D [OF w1] obtain accs where
    "list_all2 (\<lambda>x s. (case x of (n, t) \<Rightarrow> get_accessors T n t) = Inr s) (attributes self) accs" ..
  then have a: "list_all2 (\<lambda>a s. get_accessors T (fst a) (snd a) = Inr s) (attributes self) accs"
    by (simp add: case_prod_unfold)
  from write_each_Inr_D [OF w2] obtain meths where
    "list_all2 (\<lambda>x s. (case x of (n, p) \<Rightarrow> get_method T n (split_on (CHR '','') p)) = Inr s)
       (methods self) meths" ..
  then have "list_all2 (\<lambda>m s. get_method T (fst m) (split_on (CHR '','') (snd m)) = Inr s)
      (methods self) meths"
    by (simp add: case_prod_unfold)
  with h a show ?thesis by blast
qed

lemma gen_class_ok:
  assumes "can_write_class E self"
    and "get_class T self = Inr header"
    and "list_all2 (\<lambda>a s. get_accessors T (fst a) (snd a) = Inr s) (attributes self) accs"
    and "list_all2 (\<lambda>m s. get_method T (fst m) (split_on (CHR '','') (snd m)) = Inr s)
           (methods self) meths"
  shows "gen_class E T self fs =
     ((class_file_opened fs self)(class_path self \<mapsto> header @ concat accs @ concat meths),
      Inr ())"
  unfolding gen_class_entry [OF assms(1)]
  using assms(2-4) class_file_opened_empty by (rule write_class_ok)

lemma gen_class_header_fail:
  assumes "can_write_class E self" and "get_class T self = Inl e"
  shows "gen_class E T self fs = (class_file_opened fs self, Inl e)"
  unfolding gen_class_entry [OF assms(1)]
  using assms(2) by (rule write_class_header_fail)

lemma gen_class_accessor_fail:
  assumes "can_write_class E self"
    and "get_class T self = Inr header"
    and "attributes self = pre @ a # post"
    and "list_all2 (\<lambda>a s. get_accessors T (fst a) (snd a) = Inr s) pre accs"
    and "get_accessors T (fst a) (snd a) = Inl e"
  shows "gen_class E T self fs =
     ((class_file_opened fs self)(class_path self \<mapsto> header @ concat accs), Inl e)"
  unfolding gen_class_entry [OF assms(1)]
  using assms(2-5) class_file_opened_empty by (rule write_class_accessor_fail)

lemma gen_class_method_fail:
  assumes "can_write_class E self"
    and "get_class T self = Inr header"
    and "list_all2 (\<lambda>a s. get_accessors T (fst a) (snd a) = Inr s) (attributes self) accs"
    and "methods self = pre @ m # post"
    and "list_all2 (\<lambda>m s. get_method T (fst m) (split_on (CHR '','') (snd m)) = Inr s) pre meths"
    and "get_method T (fst m) (split_on (CHR '','') (snd m)) = Inl e"
  shows "gen_class E T self fs =
     ((class_file_opened fs self)(class_path self \<mapsto> header @ concat accs @ concat meths),
      Inl e)"
  unfolding gen_class_entry [OF assms(1)]
  using assms(2-6) class_file_opened_empty by (rule write_class_method_fail)

lemma gen_class_Inr_D:
  assumes "gen_class E T self fs = (fs', Inr u)"
  shows "can_write_class E self \<and> (\<exists>header accs meths.
      get_class T self = Inr header
    \<and> list_all2 (\<lambda>a s. get_accessors T (fst a) (snd a) = Inr s) (attributes self) accs
    \<and> list_all2 (\<lambda>m s. get_method T (fst m) (split_on (CHR '','') (snd m)) = Inr s)
         (methods self) meths)"
proof -
  have c: "can_write_class E self"
    using assms by (rule gen_class_Inr_can_write)
  from assms have "write_class T self (class_file_opened fs self) = (fs', Inr u)"
    by (simp add: gen_class_entry [OF c])
  from write_class_Inr_D [OF this] c show ?thesis
    by blast
qed

lemma join_method_tests_ok:
  "list_all2 (\<lambda>m s. get_method_tests T self (fst m) (snd m) = Inr s) ms stubs \<Longrightarrow>
     join_method_tests T self ms = Inr (concat stubs)"
  by (induction ms stubs rule: list_all2_induct) (auto simp: case_prod_unfold split: prod.splits)

lemma join_method_tests_fail:
  "list_all2 (\<lambda>m s. get_method_tests T self (fst m) (snd m) = Inr s) pre stubs \<Longrightarrow>
     get_method_tests T self (fst m) (snd m) = Inl e \<Longrightarrow>
     join_method_tests T self (pre @ m # post) = Inl e"
proof (induction pre stubs rule: list_all2_induct)
  case Nil
  then show ?case by (cases m) simp
next
  case (Cons x xs s ss)
  then show ?case by (cases x) simp
qed

lemma join_method_tests_Inr_D:
  "join_method_tests T self ms = Inr r \<Longrightarrow>
     \<exists>stubs. list_all2 (\<lambda>m s. get_method_tests T self (fst m) (snd m) = Inr s) ms stubs
        \<and> r = concat stubs"
proof (induction ms arbitrary: r)
  case Nil
  then show ?case by simp
next
  case (Cons m ms)
  obtain n p where m: "m = (n, p)" by (cases m)
  from Cons.prems obtain s ss where
    s: "get_method_tests T self n p = Inr s" and ss: "join_method_tests T self ms = Inr ss"
    and r: "r = s @ ss"
    by (auto simp: m split: sum.splits)
  from Cons.IH [OF ss] obtain stubs where
    "list_all2 (\<lambda>m s. get_method_tests T self (fst m) (snd m) = Inr s) ms stubs" "ss = concat stubs"
    by blast
  with s r have "list_all2 (\<lambda>m s. get_method_tests T self (fst m) (snd m) = Inr s) (m # ms) (s # stubs)
      \<and> r = concat (s # stubs)"
    by (simp add: m)
  then show ?case by blast
qed

lemma gen_unit_tests_entry:
  "can_write_tests E self \<Longrightarrow>
     gen_unit_tests E T self fs = write_tests T self (tests_file_opened fs self)"
  by (simp add: gen_unit_tests_def can_write_tests_def create_folder_and_init_file_ok open_w_def
      tests_file_opened_def)

lemma gen_unit_tests_OSError:
  assumes "\<not> can_write_tests E self"
  shows "\<exists>fs'. gen_unit_tests E T self fs = (fs', Inl OSError)"
proof (cases "can_makedirs E path_tests \<and> can_open_w E (path_tests @ ''/__init__.py'')")
  case False
  then show ?thesis
    by (simp add: gen_unit_tests_def create_folder_and_init_file_fail)
next
  case t: True
  show ?thesis
  proof (cases "can_makedirs E path_assets \<and> can_open_w E (path_assets @ ''/__init__.py'')")
    case False
    with t show ?thesis
      by (simp add: gen_unit_tests_def create_folder_and_init_file_ok
          create_folder_and_init_file_fail)
  next
    case True
    with t assms have "\<not> can_open_w E (tests_path self)"
      by (simp add: can_write_tests_def)
    with t True show ?thesis
      by (simp add: gen_unit_tests_def create_folder_and_init_file_ok open_w_def)
  qed
qed

lemma tests_file_opened_empty: "tests_file_opened fs self (tests_path self) = Some []"
  by (simp add: tests_file_opened_def)

lemma write_tests_ok:
  assumes "list_all2 (\<lambda>m s. get_method_tests T self (fst m) (snd m) = Inr s) (methods self) stubs"
    and "get_class_tests T self (concat stubs) = Inr tests"
    and "fs3 (tests_path self) = Some []"
  shows "write_tests T self fs3 = (fs3(tests_path self \<mapsto> tests), Inr ())"
  unfolding write_tests_def join_method_tests_ok [OF assms(1)] sum.case assms(2)
  by (simp add: file_write_def assms(3))

lemma gen_unit_tests_ok:
  assumes "can_write_tests E self"
    and "list_all2 (\<lambda>m s. get_method_tests T self (fst m) (snd m) = Inr s) (methods self) stubs"
    and "get_class_tests T self (concat stubs) = Inr tests"
  shows "gen_unit_tests E T self fs = ((tests_file_opened fs self)(tests_path self \<mapsto> tests), Inr ())"
  unfolding gen_unit_tests_entry [OF assms(1)]
  using assms(2,3) tests_file_opened_empty by (rule write_tests_ok)

lemma gen_unit_tests_stub_fail:
  assumes "can_write_tests E self"
    and "methods self = pre @ m # post"
    and "list_all2 (\<lambda>m s. get_method_tests T self (fst m) (snd m) = Inr s) pre stubs"
    and "get_method_tests T self (fst m) (snd m) = Inl e"
  shows "gen_unit_tests E T self fs = (tests_file_opened fs self, Inl e)"
  unfolding gen_unit_tests_entry [OF assms(1)] write_tests_def assms(2)
    join_method_tests_fail [OF assms(3,4)]
  by simp

lemma gen_unit_tests_class_tests_fail:
  assumes "can_write_tests E self"
    and "list_all2 (\<lambda>m s. get_method_tests T self (fst m) (snd m) = Inr s) (methods self) stubs"
    and "get_class_tests T self (concat stubs) = Inl e"
  shows "gen_unit_tests E T self fs = (tests_file_opened fs self, Inl e)"
  unfolding gen_unit_tests_entry [OF assms(1)] write_tests_def join_method_tests_ok [OF assms(2)]
    sum.case assms(3)
  by simp

lemma gen_unit_tests_Inr_D:
  assumes "gen_unit_tests E T self fs = (fs', Inr u)"
  shows "can_write_tests E self \<and> (\<exists>stubs tests.
      list_all2 (\<lambda>m s. get_method_tests T self (fst m) (snd m) = Inr s) (methods self) stubs
    \<and> get_class_tests T self (concat stubs) = Inr tests
    \<and> fs' (tests_path self) = Some tests)"
proof -
  have c: "can_write_tests E self"
    using gen_unit_tests_OSError [of E self T fs] assms by auto
  from assms have w: "write_tests T self (tests_file_opened fs self) = (fs', Inr u)"
    by (simp add: gen_unit_tests_entry [OF c])
  then obtain r where j: "join_method_tests T self (methods self) = Inr r"
    unfolding write_tests_def by (auto split: sum.splits)
  with w obtain tests where t: "get_class_tests T self r = Inr tests"
    unfolding write_tests_def by (auto split: sum.splits)
  from w j t have f: "fs' (tests_path self) = Some tests"
    unfolding write_tests_def by (auto simp: file_write_def tests_file_opened_def)
  from join_method_tests_Inr_D [OF j] t f c show ?thesis
    by blast
qed

lemma gen_class_obj_inherit_irrelevant:
  "gen_class E T (self\<lparr>inherit := i\<rparr>) fs = gen_class E T self fs"
  "gen_unit_tests E T (self\<lparr>inherit := i\<rparr>) fs = gen_unit_tests E T self fs"
proof -
  have gm: "get_method_tests T (self\<lparr>inherit := i\<rparr>) n p = get_method_tests T self n p" for n p
    by (simp add: get_method_tests_def cong: sum.case_cong)
  have jm: "join_method_tests T (self\<lparr>inherit := i\<rparr>) ms = join_method_tests T self ms" for ms
    by (induction ms) (auto simp: gm cong: sum.case_cong)
  have wc: "write_class T (self\<lparr>inherit := i\<rparr>) fs1 = write_class T self fs1" for fs1
    by (simp add: write_class_def class_path_def get_class_def get_attributes_strings_def
        cong: sum.case_cong)
  have wt: "write_tests T (self\<lparr>inherit := i\<rparr>) fs3 = write_tests T self fs3" for fs3
    by (simp add: write_tests_def tests_path_def get_class_tests_def jm
        cong: sum.case_cong)
  show "gen_class E T (self\<lparr>inherit := i\<rparr>) fs = gen_class E T self fs"
    by (simp add: gen_class_def class_path_def wc [unfolded class_path_def]
        cong: sum.case_cong)
  show "gen_unit_tests E T (self\<lparr>inherit := i\<rparr>) fs = gen_unit_tests E T self fs"
    by (simp add: gen_unit_tests_def tests_path_def wt [unfolded tests_path_def]
        cong: sum.case_cong)
qed

lemma list_all2_in_set_Inr:
  "list_all2 (\<lambda>x s. f x = Inr s) xs ss \<Longrightarrow> x \<in> set xs \<Longrightarrow> \<exists>s. f x = Inr s"
  by (induction xs ss rule: list_all2_induct) auto

lemma get_class_tests_Inl_any:
  "get_class_tests T self s = Inl e \<Longrightarrow> get_class_tests T self s' = Inl e"
  by (auto simp: get_class_tests_def split: sum.splits)

lemma GenClass_class_failure:
  "gen_class E T (init_fields nf attrs meths inh) fs = (fs1, Inl e) \<Longrightarrow>
     GenClass E T nf attrs meths inh fs = (fs1, Inl e)"
  by (simp add: GenClass_def)

lemma GenClass_class_ok:
  "gen_class E T (init_fields nf attrs meths inh) fs = (fs1, Inr u) \<Longrightarrow>
     GenClass E T nf attrs meths inh fs = gen_unit_tests E T (init_fields nf attrs meths inh) fs1"
  by (simp add: GenClass_def)

lemma GenClass_Inr_D:
  assumes "GenClass E T nf attrs meths inh fs = (fs', Inr u)"
  shows "\<exists>fs1. gen_class E T (init_fields nf attrs meths inh) fs = (fs1, Inr ())
     \<and> gen_unit_tests E T (init_fields nf attrs meths inh) fs1 = (fs', Inr u)"
  using assms unfolding GenClass_def Let_def
  by (auto split: prod.splits sum.splits)

section \<open>Replacement in a template\<close>

lemma replace_skip:
  "CHR ''{'' \<notin> set s \<Longrightarrow>
     replace (CHR ''{'' # xs) v (s @ t) = s @ replace (CHR ''{'' # xs) v t"
  by (induction s) auto

lemma prefix_token_iff:
  "x \<notin> set n \<Longrightarrow> x \<notin> set m \<Longrightarrow> prefix (n @ [x]) (m @ x # t) \<longleftrightarrow> n = m"
proof (induction n arbitrary: m)
  case Nil
  then show ?case by (cases m) auto
next
  case (Cons a n)
  then show ?case by (cases m) auto
qed

lemma replace_token_same:
  "replace (CHR ''{'' # n @ ''}'') v (CHR ''{'' # n @ CHR ''}'' # t)
     = v @ replace (CHR ''{'' # n @ ''}'') v t"
  by simp

lemma replace_token_other:
  assumes "CHR ''}'' \<notin> set n" "CHR ''}'' \<notin> set m" "CHR ''{'' \<notin> set m" "m \<noteq> n"
  shows "replace (CHR ''{'' # n @ ''}'') v (CHR ''{'' # m @ CHR ''}'' # t)
     = CHR ''{'' # m @ CHR ''}'' # replace (CHR ''{'' # n @ ''}'') v t"
proof -
  have np: "\<not> prefix (n @ ''}'') (m @ CHR ''}'' # t)"
    using prefix_token_iff [OF assms(1,2)] assms(4) by auto
  have "replace (CHR ''{'' # n @ ''}'') v (CHR ''{'' # m @ CHR ''}'' # t)
      = CHR ''{'' # replace (CHR ''{'' # n @ ''}'') v (m @ CHR ''}'' # t)"
    using np by simp
  also have "replace (CHR ''{'' # n @ ''}'') v (m @ CHR ''}'' # t)
      = m @ replace (CHR ''{'' # n @ ''}'') v (CHR ''}'' # t)"
    using assms(3) by (rule replace_skip)
  also have "replace (CHR ''{'' # n @ ''}'') v (CHR ''}'' # t)
      = CHR ''}'' # replace (CHR ''{'' # n @ ''}'') v t"
    by simp
  finally show ?thesis by simp
qed

lemma replace_template_text:
  assumes "plain_name n"
    and "list_all plain_name allowed"
    and "only_tokens allowed segs"
  shows "replace (''{'' @ n @ ''}'') v (template_text segs)
     = template_text (map (subst_segment n v) segs)"
  using assms(3)
proof (induction segs)
  case Nil
  show ?case by (simp add: template_text_def)
next
  case (Cons sg segs)
  then have ih: "replace (''{'' @ n @ ''}'') v (template_text segs)
      = template_text (map (subst_segment n v) segs)"
    by (simp add: only_tokens_def)
  show ?case
  proof (cases sg)
    case (Lit s)
    with Cons.prems have "CHR ''{'' \<notin> set s"
      by (simp add: only_tokens_def)
    from replace_skip [OF this, of "n @ ''}''" v "template_text segs"] ih show ?thesis
      by (simp add: Lit template_text_def)
  next
    case (Tok m)
    with Cons.prems have "m \<in> set allowed"
      by (simp add: only_tokens_def)
    with assms(2) have pm: "plain_name m"
      by (simp add: list_all_iff)
    show ?thesis
    proof (cases "m = n")
      case True
      from replace_token_same [of n v "template_text segs"] ih show ?thesis
        by (simp add: Tok True template_text_def)
    next
      case False
      from replace_token_other [of n m v "template_text segs"] pm assms(1) False ih
      show ?thesis
        by (simp add: Tok template_text_def plain_name_def)
    qed
  qed
qed

lemma only_tokens_subst:
  assumes "only_tokens allowed segs" and "CHR ''{'' \<notin> set v"
  shows "only_tokens (removeAll n allowed) (map (subst_segment n v) segs)"
  using assms(1)
proof (induction segs)
  case Nil
  show ?case by (simp add: only_tokens_def)
next
  case (Cons sg segs)
  then show ?case
    using assms(2) by (cases sg) (auto simp: only_tokens_def)
qed

lemma only_tokens_Nil_no_brace:
  "only_tokens [] segs \<Longrightarrow> CHR ''{'' \<notin> set (template_text segs)"
proof (induction segs)
  case Nil
  show ?case by (simp add: template_text_def)
next
  case (Cons sg segs)
  then show ?case
    by (cases sg) (auto simp: only_tokens_def template_text_def)
qed


lemma replace_chain_no_brace:
  assumes "list_all (\<lambda>nv. plain_name (fst nv) \<and> CHR ''{'' \<notin> set (snd nv)) subs"
    and "list_all plain_name allowed"
    and "only_tokens allowed segs"
    and "set allowed \<subseteq> fst ` set subs"
  shows "CHR ''{'' \<notin> set (fold (\<lambda>nv t. replace (''{'' @ fst nv @ ''}'') (snd nv) t) subs
            (template_text segs))"
  using assms
proof (induction subs arbitrary: allowed segs)
  case Nil
  then have "allowed = []" by simp
  with Nil.prems(3) show ?case
    by (simp add: only_tokens_Nil_no_brace)
next
  case (Cons nv subs)
  obtain n v where nv: "nv = (n, v)" by (cases nv)
  from Cons.prems(1) have pn: "plain_name n" and nb: "CHR ''{'' \<notin> set v"
    and rest: "list_all (\<lambda>nv. plain_name (fst nv) \<and> CHR ''{'' \<notin> set (snd nv)) subs"
    by (simp_all add: nv)
  have r: "replace (''{'' @ n @ ''}'') v (template_text segs)
      = template_text (map (subst_segment n v) segs)"
    using pn Cons.prems(2) Cons.prems(3) by (rule replace_template_text)
  have a: "list_all plain_name (removeAll n allowed)"
    using Cons.prems(2) by (simp add: list_all_iff)
  have o: "only_tokens (removeAll n allowed) (map (subst_segment n v) segs)"
    using Cons.prems(3) nb by (rule only_tokens_subst)
  have s: "set (removeAll n allowed) \<subseteq> fst ` set subs"
    using Cons.prems(4) by (auto simp: nv)
  from Cons.IH [OF rest a o s] r show ?case
    by (simp add: nv)
qed

section \<open>Texts without a brace\<close>

lemma set_strip: "set (strip s) \<subseteq> set s"
proof -
  have d: "set (dropWhile P xs) \<subseteq> set xs" for P and xs :: string
    by (auto dest: set_dropWhileD)
  have "set (strip s) = set (dropWhile is_space (rev (dropWhile is_space s)))"
    by (simp add: strip_def)
  also have "\<dots> \<subseteq> set (rev (dropWhile is_space s))"
    by (rule d)
  also have "\<dots> \<subseteq> set s"
    using d [of is_space s] by simp
  finally show ?thesis .
qed

lemma set_split_on: "p \<in> set (split_on sep s) \<Longrightarrow> set p \<subseteq> set s"
proof (induction s arbitrary: p)
  case Nil
  then show ?case by simp
next
  case (Cons c cs)
  show ?case
  proof (cases "c = sep")
    case True
    with Cons show ?thesis by auto
  next
    case False
    obtain q qs where q: "split_on sep cs = q # qs"
      by (cases "split_on sep cs") auto
    with False Cons.prems have "p = c # q \<or> p \<in> set qs"
      by auto
    then show ?thesis
    proof
      assume "p = c # q"
      moreover have "set q \<subseteq> set cs"
        using Cons.IH [of q] q by simp
      ultimately show ?thesis by auto
    next
      assume "p \<in> set qs"
      then have "set p \<subseteq> set cs"
        using Cons.IH [of p] q by simp
      then show ?thesis by auto
    qed
  qed
qed

lemma no_brace_join:
  "CHR ''{'' \<notin> set sep \<Longrightarrow> \<forall>x \<in> set xs. CHR ''{'' \<notin> set x \<Longrightarrow> CHR ''{'' \<notin> set (join sep xs)"
  by (induction sep xs rule: join.induct) auto

lemma no_brace_set_tab: "CHR ''{'' \<notin> set (set_tab a b)"
  by (simp add: set_tab_def)

lemma upper_char_brace: "upper_char c = CHR ''{'' \<Longrightarrow> c = CHR ''{''"
proof (cases "97 \<le> (of_char c :: nat) \<and> (of_char c :: nat) \<le> 122")
  case True
  assume h: "upper_char c = CHR ''{''"
  define k where "k = (of_char c :: nat)"
  from True have k: "97 \<le> k" "k \<le> 122"
    by (simp_all add: k_def)
  from True have "upper_char c = char_of (k - 32)"
    by (simp add: upper_char_def k_def)
  with h have "(of_char (char_of (k - 32)) :: nat) = of_char (CHR ''{'')"
    by simp
  then have "(k - 32) mod 256 = 123"
    by simp
  moreover from k have "(k - 32) mod 256 = k - 32"
    by simp
  ultimately have False
    using k by linarith
  then show ?thesis ..
next
  case False
  assume h: "upper_char c = CHR ''{''"
  from False have "upper_char c = c"
    by (auto simp: upper_char_def Let_def)
  with h show ?thesis by simp
qed

lemma lower_char_brace: "lower_char c = CHR ''{'' \<Longrightarrow> c = CHR ''{''"
proof (cases "65 \<le> (of_char c :: nat) \<and> (of_char c :: nat) \<le> 90")
  case True
  assume h: "lower_char c = CHR ''{''"
  from True have "lower_char c = char_of ((of_char c :: nat) + 32)"
    by (simp add: lower_char_def)
  with h have "(of_char (char_of ((of_char c :: nat) + 32)) :: nat) = of_char (CHR ''{'')"
    by simp
  with True show ?thesis by simp
next
  case False
  assume h: "lower_char c = CHR ''{''"
  from False have "lower_char c = c"
    by (auto simp: lower_char_def Let_def)
  with h show ?thesis by simp
qed

lemma no_brace_capitalize: "CHR ''{'' \<notin> set s \<Longrightarrow> CHR ''{'' \<notin> set (capitalize s)"
  by (cases s) (auto dest: upper_char_brace [OF sym] lower_char_brace [OF sym])

lemma no_brace_name_class_of:
  assumes "CHR ''{'' \<notin> set nf"
  shows "CHR ''{'' \<notin> set (name_class_of nf)"
proof -
  have "CHR ''{'' \<notin> set (capitalize p)" if "p \<in> set (split_on (CHR ''_'') nf)" for p
    using set_split_on [OF that] assms by (intro no_brace_capitalize) auto
  then show ?thesis
    by (auto simp: name_class_of_def)
qed

lemma set_tl_dropWhile: "set (tl (dropWhile P xs)) \<subseteq> set xs"
proof -
  have "set (tl ys) \<subseteq> set ys" for ys :: "'a list"
    by (cases ys) auto
  moreover have "set (dropWhile P xs) \<subseteq> set xs"
    by (auto dest: set_dropWhileD)
  ultimately show ?thesis by blast
qed

lemma set_takeWhile_subset: "set (takeWhile P xs) \<subseteq> set xs"
  by (auto dest: set_takeWhileD)

lemma parse_param_chars:
  assumes "parse_param tok = Inr (n, ty, dv)"
  shows "set n \<subseteq> set tok \<and> set ty \<subseteq> set tok"
proof -
  from assms have c: "CHR '':'' \<in> set tok"
    by (simp add: parse_param_takeWhile split: if_splits)
  from assms c have n: "n = strip (takeWhile (\<lambda>c. c \<noteq> CHR '':'') tok)"
    and ty: "ty = strip (takeWhile (\<lambda>c. c \<noteq> CHR ''='')
        (takeWhile (\<lambda>c. c \<noteq> CHR '':'') (tl (dropWhile (\<lambda>c. c \<noteq> CHR '':'') tok))))"
    by (simp_all add: parse_param_takeWhile Let_def)
  have "set n \<subseteq> set (takeWhile (\<lambda>c. c \<noteq> CHR '':'') tok)"
    unfolding n by (rule set_strip)
  also have "\<dots> \<subseteq> set tok"
    by (rule set_takeWhile_subset)
  finally have a: "set n \<subseteq> set tok" .
  have "set ty \<subseteq> set (takeWhile (\<lambda>c. c \<noteq> CHR ''='')
        (takeWhile (\<lambda>c. c \<noteq> CHR '':'') (tl (dropWhile (\<lambda>c. c \<noteq> CHR '':'') tok))))"
    unfolding ty by (rule set_strip)
  also have "\<dots> \<subseteq> set (takeWhile (\<lambda>c. c \<noteq> CHR '':'') (tl (dropWhile (\<lambda>c. c \<noteq> CHR '':'') tok)))"
    by (rule set_takeWhile_subset)
  also have "\<dots> \<subseteq> set (tl (dropWhile (\<lambda>c. c \<noteq> CHR '':'') tok))"
    by (rule set_takeWhile_subset)
  also have "\<dots> \<subseteq> set tok"
    by (rule set_tl_dropWhile)
  finally have "set ty \<subseteq> set tok" .
  with a show ?thesis ..
qed

lemma dict_set_plain:
  "list_all entry_plain d \<Longrightarrow> entry_plain (k, v) \<Longrightarrow> list_all entry_plain (dict_set d k v)"
  by (induction d k v rule: dict_set.induct) auto

lemma get_methods_dictionary_from_plain:
  assumes "get_methods_dictionary_from params toks = Inr d"
    and "list_all entry_plain params"
    and "\<forall>tok \<in> set toks. CHR ''{'' \<notin> set tok"
  shows "list_all entry_plain d"
  using assms
proof (induction toks arbitrary: params)
  case Nil
  then show ?case by simp
next
  case (Cons tok toks)
  from Cons.prems(1) obtain n ty dv where p: "parse_param tok = Inr (n, ty, dv)"
    by (auto split: sum.splits)
  from parse_param_chars [OF p] Cons.prems(3) have "entry_plain (n, ty, dv)"
    by (auto simp: entry_plain_def)
  with Cons.prems(2) have d: "list_all entry_plain (dict_set params n (ty, dv))"
    by (rule dict_set_plain)
  from Cons.prems(1) p have "get_methods_dictionary_from (dict_set params n (ty, dv)) toks = Inr d"
    by simp
  from Cons.IH [OF this d] Cons.prems(3) show ?case
    by simp
qed

lemma get_methods_strings_plain:
  assumes "get_methods_strings toks = Inr (mpl, rt, pd, rs)"
    and "\<forall>tok \<in> set toks. CHR ''{'' \<notin> set tok"
  shows "CHR ''{'' \<notin> set mpl \<and> CHR ''{'' \<notin> set rt \<and> CHR ''{'' \<notin> set pd \<and> CHR ''{'' \<notin> set rs"
proof -
  from assms(1) obtain d where d: "get_methods_dictionary toks = Inr d"
    by (auto simp: get_methods_strings_def split: sum.splits)
  then have pl: "list_all entry_plain d"
    unfolding get_methods_dictionary_def
    using assms(2) by (intro get_methods_dictionary_from_plain [of "[]" toks d]) simp_all
  from assms(1) d have rt: "rt = (case map_of d ''return'' of None \<Rightarrow> ''None'' | Some v \<Rightarrow> fst v)"
    and rs: "rs = (if rt \<noteq> ''None''
                  then [CHR 0x0A, CHR 0x0A] @ set_tab 2 4 @ ''Returns:'' @ [CHR 0x0A]
                         @ set_tab 3 4 @ rt @ '': '' @ msg_desc
                  else [])"
    and pd: "pd = join ([CHR 0x0A] @ set_tab 3 4)
                   (map (\<lambda>(k, v). k @ '' ('' @ fst v @ ''): '' @ msg_desc)
                      (filter (\<lambda>(k, v). k \<noteq> ''return'') d))"
    and mpl: "mpl = join ('','' @ [CHR 0x0A] @ set_tab 2 4) (map strip (butlast toks))"
    by (auto simp: get_methods_strings_def Let_def)
  have 1: "CHR ''{'' \<notin> set mpl"
    unfolding mpl
  proof (rule no_brace_join)
    show "CHR ''{'' \<notin> set ('','' @ [CHR 0x0A] @ set_tab 2 4)"
      by (simp add: no_brace_set_tab)
    show "\<forall>x \<in> set (map strip (butlast toks)). CHR ''{'' \<notin> set x"
      using assms(2) set_strip by (auto dest!: in_set_butlastD)
  qed
  have 2: "CHR ''{'' \<notin> set rt"
  proof (cases "map_of d ''return''")
    case None
    then show ?thesis by (simp add: rt)
  next
    case (Some v)
    then have "(''return'', v) \<in> set d"
      by (rule map_of_SomeD)
    with pl have "entry_plain (''return'', v)"
      by (simp add: list_all_iff)
    with Some show ?thesis
      by (simp add: rt entry_plain_def)
  qed
  have 3: "CHR ''{'' \<notin> set pd"
    unfolding pd
  proof (rule no_brace_join)
    show "CHR ''{'' \<notin> set ([CHR 0x0A] @ set_tab 3 4)"
      by (simp add: no_brace_set_tab)
    show "\<forall>x \<in> set (map (\<lambda>(k, v). k @ '' ('' @ fst v @ ''): '' @ msg_desc)
        (filter (\<lambda>(k, v). k \<noteq> ''return'') d)). CHR ''{'' \<notin> set x"
      using pl by (auto simp: list_all_iff entry_plain_def msg_desc_def)
  qed
  have 4: "CHR ''{'' \<notin> set rs"
    using 2 by (simp add: rs no_brace_set_tab msg_desc_def)
  from 1 2 3 4 show ?thesis by blast
qed

lemma contains_set: "contains sub s \<Longrightarrow> set sub \<subseteq> set s"
proof (induction s)
  case Nil
  then show ?case by simp
next
  case (Cons c cs)
  from Cons.prems have "prefix sub (c # cs) \<or> contains sub cs"
    by simp
  then show ?case
  proof
    assume "prefix sub (c # cs)"
    then show ?thesis by (rule set_mono_prefix)
  next
    assume "contains sub cs"
    from Cons.IH [OF this] show ?thesis by auto
  qed
qed

lemma no_brace_no_token: "CHR ''{'' \<notin> set s \<Longrightarrow> \<not> contains (''{'' @ name @ ''}'') s"
  by (auto dest: contains_set)

lemma get_accessors_no_brace:
  assumes "T ''accessors'' = Some (template_text segs)"
    and "only_tokens accessors_tokens segs"
    and "CHR ''{'' \<notin> set n" and "CHR ''{'' \<notin> set t"
  shows "\<exists>a. get_accessors T n t = Inr a \<and> CHR ''{'' \<notin> set a"
proof -
  let ?subs = "[(''attribute_name'', n), (''attribute_type'', t)]"
  have "CHR ''{'' \<notin> set (fold (\<lambda>nv t. replace (''{'' @ fst nv @ ''}'') (snd nv) t) ?subs
            (template_text segs))"
    using assms(2)
    by (intro replace_chain_no_brace [where allowed = accessors_tokens])
       (simp_all add: plain_name_def accessors_tokens_def assms(3,4))
  then show ?thesis
    by (simp add: get_accessors_def load_template_def assms(1))
qed

lemma get_attributes_strings_no_brace:
  assumes "list_all pair_plain (attributes self)"
    and "get_attributes_strings self = (ad, ap, ai)"
  shows "CHR ''{'' \<notin> set ad \<and> CHR ''{'' \<notin> set ap \<and> CHR ''{'' \<notin> set ai"
proof -
  from assms(2) have ad: "ad = join [CHR 0x0A]
              (map (\<lambda>(attr_name, attr_type).
                      set_tab 3 4 @ attr_name @ '' ('' @ attr_type @ ''): '' @ desc_attr)
                   (attributes self))"
    and ap: "ap = concat
              (map (\<lambda>(attr_name, attr_type).
                      '','' @ [CHR 0x0A] @ set_tab 2 4 @ attr_name @ '': '' @ attr_type)
                   (attributes self))"
    and ai: "ai = join [CHR 0x0A]
              (map (\<lambda>(attr_name, attr_type).
                      set_tab 2 4 @ ''self._'' @ attr_name @ '': '' @ attr_type
                        @ '' = '' @ attr_name)
                   (attributes self))"
    by (auto simp: get_attributes_strings_def Let_def)
  have 1: "CHR ''{'' \<notin> set ad"
    unfolding ad using assms(1)
    by (intro no_brace_join)
       (auto simp: list_all_iff pair_plain_def desc_attr_def no_brace_set_tab)
  have 2: "CHR ''{'' \<notin> set ap"
    unfolding ap using assms(1)
    by (auto simp: list_all_iff pair_plain_def no_brace_set_tab)
  have 3: "CHR ''{'' \<notin> set ai"
    unfolding ai using assms(1)
    by (intro no_brace_join)
       (auto simp: list_all_iff pair_plain_def no_brace_set_tab)
  from 1 2 3 show ?thesis by blast
qed

lemma get_class_no_brace:
  assumes "T ''class'' = Some (template_text segs)"
    and "only_tokens class_tokens segs"
    and "CHR ''{'' \<notin> set (name_class self)"
    and "list_all pair_plain (attributes self)"
  shows "\<exists>h. get_class T self = Inr h \<and> CHR ''{'' \<notin> set h"
proof -
  obtain ad ap ai where g: "get_attributes_strings self = (ad, ap, ai)"
    by (cases "get_attributes_strings self")
  from get_attributes_strings_no_brace [OF assms(4) g]
  have nb: "CHR ''{'' \<notin> set ad" "CHR ''{'' \<notin> set ap" "CHR ''{'' \<notin> set ai"
    by simp_all
  let ?subs = "[(''class_name'', name_class self), (''attributes_params'', ap),
      (''attributes_docstring'', ad), (''attributes_init'', ai)]"
  have "CHR ''{'' \<notin> set (fold (\<lambda>nv t. replace (''{'' @ fst nv @ ''}'') (snd nv) t) ?subs
            (template_text segs))"
    using assms(2)
    by (intro replace_chain_no_brace [where allowed = class_tokens])
       (simp_all add: plain_name_def class_tokens_def assms(3) nb)
  then show ?thesis
    by (simp add: get_class_def load_template_def assms(1) g)
qed

lemma get_method_no_brace:
  assumes "T ''methods'' = Some (template_text segs)"
    and "only_tokens methods_tokens segs"
    and "CHR ''{'' \<notin> set n" and "CHR ''{'' \<notin> set p"
    and "get_method T n (split_on (CHR '','') p) = Inr m"
  shows "CHR ''{'' \<notin> set m"
proof -
  from assms(5) obtain mpl rt pd rs where
    g: "get_methods_strings (split_on (CHR '','') p) = Inr (mpl, rt, pd, rs)"
    by (auto simp: get_method_def split: sum.splits)
  have "\<forall>tok \<in> set (split_on (CHR '','') p). CHR ''{'' \<notin> set tok"
    using set_split_on assms(4) by blast
  from get_methods_strings_plain [OF g this]
  have nb: "CHR ''{'' \<notin> set mpl" "CHR ''{'' \<notin> set rt" "CHR ''{'' \<notin> set pd" "CHR ''{'' \<notin> set rs"
    by simp_all
  let ?subs = "[(''method_name'', n), (''method_params'', mpl), (''return_type'', rt),
      (''params_docstring'', pd), (''returns_string'', rs)]"
  have "CHR ''{'' \<notin> set (fold (\<lambda>nv t. replace (''{'' @ fst nv @ ''}'') (snd nv) t) ?subs
            (template_text segs))"
    using assms(2)
    by (intro replace_chain_no_brace [where allowed = methods_tokens])
       (simp_all add: plain_name_def methods_tokens_def assms(3) nb)
  moreover from assms(5) have "m = fold (\<lambda>nv t. replace (''{'' @ fst nv @ ''}'') (snd nv) t) ?subs
            (template_text segs)"
    by (simp add: get_method_def g load_template_def assms(1))
  ultimately show ?thesis by simp
qed

lemma get_method_tests_no_brace:
  assumes "T ''methods_tests'' = Some (template_text segs)"
    and "only_tokens methods_tests_tokens segs"
    and "CHR ''{'' \<notin> set n" and "CHR ''{'' \<notin> set p"
    and "CHR ''{'' \<notin> set (name_file self)" and "CHR ''{'' \<notin> set (name_class self)"
  shows "\<exists>s. get_method_tests T self n p = Inr s \<and> CHR ''{'' \<notin> set s"
proof -
  let ?params = "join ('','' @ [CHR 0x0A] @ set_tab 2 4 @ ''#'' @ set_tab 1 4)
              (map (\<lambda>param. hd (split_on (CHR '':'') param))
                 (butlast (split_on (CHR '','') p)))"
  have tok: "CHR ''{'' \<notin> set tok" if "tok \<in> set (split_on (CHR '','') p)" for tok
    using set_split_on [OF that] assms(4) by blast
  have "CHR ''{'' \<notin> set (hd (split_on (CHR '':'') tok))" if "tok \<in> set (split_on (CHR '','') p)" for tok
  proof -
    have "hd (split_on (CHR '':'') tok) \<in> set (split_on (CHR '':'') tok)"
      by (rule hd_in_set) simp
    from set_split_on [OF this] tok [OF that] show ?thesis by blast
  qed
  then have pb: "CHR ''{'' \<notin> set ?params"
    by (intro no_brace_join) (auto simp: no_brace_set_tab dest!: in_set_butlastD)
  let ?subs = "[(''method_name'', n), (''class_file'', name_file self),
      (''class_name'', name_class self), (''params'', ?params)]"
  have "CHR ''{'' \<notin> set (fold (\<lambda>nv t. replace (''{'' @ fst nv @ ''}'') (snd nv) t) ?subs
            (template_text segs))"
    using assms(2) pb
    by (intro replace_chain_no_brace [where allowed = methods_tests_tokens])
       (simp_all add: plain_name_def methods_tests_tokens_def assms(3,5,6))
  then show ?thesis
    by (simp add: get_method_tests_def load_template_def assms(1) Let_def)
qed

lemma get_class_tests_no_brace:
  assumes "T ''tests'' = Some (template_text segs)"
    and "only_tokens tests_tokens segs"
    and "CHR ''{'' \<notin> set mft"
    and "CHR ''{'' \<notin> set (name_file self)" and "CHR ''{'' \<notin> set (name_class self)"
  shows "\<exists>s. get_class_tests T self mft = Inr s \<and> CHR ''{'' \<notin> set s"
proof -
  let ?subs = "[(''class_name'', name_class self), (''methods_for_tests'', mft),
      (''file_name'', name_file self)]"
  have "CHR ''{'' \<notin> set (fold (\<lambda>nv t. replace (''{'' @ fst nv @ ''}'') (snd nv) t) ?subs
            (template_text segs))"
    using assms(2)
    by (intro replace_chain_no_brace [where allowed = tests_tokens])
       (simp_all add: plain_name_def tests_tokens_def assms(3,4,5))
  then show ?thesis
    by (simp add: get_class_tests_def load_template_def assms(1))
qed

section \<open>Lists of results\<close>

lemma list_all2_rightD:
  "list_all2 P xs ys \<Longrightarrow> y \<in> set ys \<Longrightarrow> \<exists>x \<in> set xs. P x y"
  by (induction xs ys rule: list_all2_induct) auto

lemma parse_param_Inr_iff: "(\<exists>e. parse_param tok = Inr e) \<longleftrightarrow> CHR '':'' \<in> set tok"
  by (simp add: parse_param_takeWhile Let_def)

lemma parse_param_all:
  "\<forall>tok \<in> set toks. CHR '':'' \<in> set tok \<Longrightarrow> \<exists>es. map parse_param toks = map Inr es"
proof (induction toks)
  case Nil
  show ?case by simp
next
  case (Cons tok toks)
  then obtain es where es: "map parse_param toks = map Inr es"
    by auto
  from Cons.prems obtain e where "parse_param tok = Inr e"
    using parse_param_Inr_iff [of tok] by auto
  with es have "map parse_param (tok # toks) = map Inr (e # es)"
    by simp
  then show ?case ..
qed

lemma list_all2_ex:
  "\<forall>x \<in> set xs. \<exists>y. P x y \<Longrightarrow> \<exists>ys. list_all2 P xs ys"
proof (induction xs)
  case Nil
  show ?case by simp
next
  case (Cons x xs)
  then obtain ys where "list_all2 P xs ys" by auto
  moreover from Cons.prems obtain y where "P x y" by auto
  ultimately have "list_all2 P (x # xs) (y # ys)" by simp
  then show ?case ..
qed

lemma get_method_total:
  assumes "T ''methods'' = Some t"
    and "\<forall>tok \<in> set toks. CHR '':'' \<in> set tok"
  shows "\<exists>m. get_method T n toks = Inr m"
proof -
  from parse_param_all [OF assms(2)] obtain es where "map parse_param toks = map Inr es" ..
  from get_methods_strings_total [OF this] show ?thesis
    by (simp add: get_method_def load_template_def assms(1))
qed


section \<open>The return descriptor and tokens that do not parse\<close>



lemma parse_param_Inl: "parse_param tok = Inl e \<Longrightarrow> e = AttributeError"
  by (simp add: parse_param_takeWhile Let_def split: if_splits)

lemma get_methods_dictionary_from_no_colon:
  "\<exists>tok \<in> set toks. CHR '':'' \<notin> set tok \<Longrightarrow>
     get_methods_dictionary_from params toks = Inl AttributeError"
proof (induction toks arbitrary: params)
  case Nil
  then show ?case by simp
next
  case (Cons tok toks)
  show ?case
  proof (cases "CHR '':'' \<in> set tok")
    case False
    then have "parse_param tok = Inl AttributeError"
      by (simp add: parse_param_takeWhile)
    then show ?thesis by simp
  next
    case True
    then obtain n ty dv where p: "parse_param tok = Inr (n, ty, dv)"
      using parse_param_Inr_iff [of tok] by auto
    from True Cons.prems have "\<exists>t \<in> set toks. CHR '':'' \<notin> set t"
      by auto
    from Cons.IH [OF this] show ?thesis
      by (simp add: p)
  qed
qed

lemma get_methods_strings_no_colon:
  "\<exists>tok \<in> set toks. CHR '':'' \<notin> set tok \<Longrightarrow> get_methods_strings toks = Inl AttributeError"
  by (simp add: get_methods_strings_def get_methods_dictionary_def
      get_methods_dictionary_from_no_colon)

section \<open>The whole construction\<close>

lemma GenClass_not_writable:
  assumes "self = init_fields nf attrs meths inh" and "\<not> can_write_class E self"
  shows "\<exists>fs1. GenClass E T nf attrs meths inh fs = (fs1, Inl OSError)"
  using gen_class_OSError [OF assms(2), of T fs]
  by (auto simp: assms(1) dest: GenClass_class_failure)

lemma GenClass_header_fail:
  assumes "self = init_fields nf attrs meths inh" and "can_write_class E self"
    and "get_class T self = Inl e"
  shows "GenClass E T nf attrs meths inh fs = (class_file_opened fs self, Inl e)"
  using gen_class_header_fail [OF assms(2,3), of fs]
  unfolding assms(1) by (rule GenClass_class_failure)

lemma GenClass_accessor_fail:
  assumes "self = init_fields nf attrs meths inh" and "can_write_class E self"
    and "get_class T self = Inr header"
    and "attrs = pre @ a # post"
    and "list_all2 (\<lambda>a s. get_accessors T (fst a) (snd a) = Inr s) pre accs"
    and "get_accessors T (fst a) (snd a) = Inl e"
  shows "GenClass E T nf attrs meths inh fs =
     ((class_file_opened fs self)(class_path self \<mapsto> header @ concat accs), Inl e)"
proof -
  have "attributes self = pre @ a # post"
    by (simp add: assms(1,4) init_fields_def)
  from gen_class_accessor_fail [OF assms(2,3) this assms(5,6), of fs] show ?thesis
    unfolding assms(1) by (rule GenClass_class_failure)
qed

lemma GenClass_method_fail:
  assumes "self = init_fields nf attrs meths inh" and "can_write_class E self"
    and "get_class T self = Inr header"
    and "list_all2 (\<lambda>a s. get_accessors T (fst a) (snd a) = Inr s) attrs accs"
    and "meths = pre @ m # post"
    and "list_all2 (\<lambda>m s. get_method T (fst m) (split_on (CHR '','') (snd m)) = Inr s) pre ms"
    and "get_method T (fst m) (split_on (CHR '','') (snd m)) = Inl e"
  shows "GenClass E T nf attrs meths inh fs =
     ((class_file_opened fs self)(class_path self \<mapsto> header @ concat accs @ concat ms),
      Inl e)"
proof -
  have a: "list_all2 (\<lambda>a s. get_accessors T (fst a) (snd a) = Inr s) (attributes self) accs"
    using assms(4) by (simp add: assms(1) init_fields_def)
  have "methods self = pre @ m # post"
    by (simp add: assms(1,5) init_fields_def)
  from gen_class_method_fail [OF assms(2,3) a this assms(6,7), of fs] show ?thesis
    unfolding assms(1) by (rule GenClass_class_failure)
qed

lemma GenClass_class_written:
  assumes "self = init_fields nf attrs meths inh" and "can_write_class E self"
    and "renders_class T self header accs ms"
  shows "GenClass E T nf attrs meths inh fs =
     gen_unit_tests E T self
       ((class_file_opened fs self)(class_path self \<mapsto> header @ concat accs @ concat ms))"
proof -
  from assms(3) have "gen_class E T self fs =
     ((class_file_opened fs self)(class_path self \<mapsto> header @ concat accs @ concat ms),
      Inr ())"
    unfolding renders_class_def by (intro gen_class_ok [OF assms(2)]) simp_all
  then show ?thesis
    unfolding assms(1) by (rule GenClass_class_ok)
qed

lemma GenClass_ok:
  assumes "self = init_fields nf attrs meths inh"
    and "can_write_class E self" and "can_write_tests E self"
    and "renders_class T self header accs ms"
    and "renders_tests T self stubs tests"
  shows "\<exists>fs'. GenClass E T nf attrs meths inh fs = (fs', Inr ())
     \<and> fs' (tests_path self) = Some tests"
proof -
  from assms(5) have s: "list_all2 (\<lambda>m s. get_method_tests T self (fst m) (snd m) = Inr s)
      (methods self) stubs"
    and t: "get_class_tests T self (concat stubs) = Inr tests"
    by (simp_all add: renders_tests_def)
  show ?thesis
    unfolding GenClass_class_written [OF assms(1,2,4)] gen_unit_tests_ok [OF assms(3) s t]
    by simp
qed

lemma GenClass_Inr_renders:
  assumes "self = init_fields nf attrs meths inh"
    and "GenClass E T nf attrs meths inh fs = (fs', Inr u)"
  shows "can_write_class E self \<and> can_write_tests E self
     \<and> (\<exists>header accs ms stubs tests.
           renders_class T self header accs ms \<and> renders_tests T self stubs tests
         \<and> fst (gen_class E T self fs) (class_path self)
             = Some (header @ concat accs @ concat ms)
         \<and> fs' (tests_path self) = Some tests)"
proof -
  from GenClass_Inr_D [OF assms(2)] obtain fs1 where
    c: "gen_class E T self fs = (fs1, Inr ())" and t: "gen_unit_tests E T self fs1 = (fs', Inr u)"
    unfolding assms(1) by auto
  from gen_class_Inr_D [OF c] obtain header accs ms where
    w: "can_write_class E self"
    and h: "get_class T self = Inr header"
    and a: "list_all2 (\<lambda>a s. get_accessors T (fst a) (snd a) = Inr s) (attributes self) accs"
    and m: "list_all2 (\<lambda>m s. get_method T (fst m) (split_on (CHR '','') (snd m)) = Inr s)
         (methods self) ms"
    by blast
  have rc: "renders_class T self header accs ms"
    using h a m by (simp add: renders_class_def)
  have f: "fst (gen_class E T self fs) (class_path self) = Some (header @ concat accs @ concat ms)"
    unfolding gen_class_ok [OF w h a m] by simp
  from gen_unit_tests_Inr_D [OF t] obtain stubs tests where
    wt: "can_write_tests E self"
    and s: "list_all2 (\<lambda>m s. get_method_tests T self (fst m) (snd m) = Inr s) (methods self) stubs"
    and ct: "get_class_tests T self (concat stubs) = Inr tests"
    and ft: "fs' (tests_path self) = Some tests"
    by blast
  have rt: "renders_tests T self stubs tests"
    using s ct by (simp add: renders_tests_def)
  from w wt rc rt f ft show ?thesis
    by blast
qed

lemma GenClass_tests_not_writable:
  assumes "self = init_fields nf attrs meths inh" and "can_write_class E self"
    and "renders_class T self header accs ms"
    and "\<not> can_write_tests E self"
  shows "\<exists>fs1. GenClass E T nf attrs meths inh fs = (fs1, Inl OSError)"
  unfolding GenClass_class_written [OF assms(1-3)]
  using assms(4) by (rule gen_unit_tests_OSError)

lemma GenClass_stub_fail:
  assumes "self = init_fields nf attrs meths inh" and "can_write_class E self"
    and "renders_class T self header accs ms"
    and "can_write_tests E self"
    and "meths = pre @ m # post"
    and "list_all2 (\<lambda>m s. get_method_tests T self (fst m) (snd m) = Inr s) pre stubs"
    and "get_method_tests T self (fst m) (snd m) = Inl e"
  shows "GenClass E T nf attrs meths inh fs =
     (tests_file_opened
        ((class_file_opened fs self)(class_path self \<mapsto> header @ concat accs @ concat ms))
        self, Inl e)"
proof -
  have "methods self = pre @ m # post"
    by (simp add: assms(1,5) init_fields_def)
  from gen_unit_tests_stub_fail [OF assms(4) this assms(6,7)] show ?thesis
    unfolding GenClass_class_written [OF assms(1-3)] .
qed

lemma GenClass_class_tests_fail:
  assumes "self = init_fields nf attrs meths inh" and "can_write_class E self"
    and "renders_class T self header accs ms"
    and "can_write_tests E self"
    and "list_all2 (\<lambda>m s. get_method_tests T self (fst m) (snd m) = Inr s) meths stubs"
    and "get_class_tests T self (concat stubs) = Inl e"
  shows "GenClass E T nf attrs meths inh fs =
     (tests_file_opened
        ((class_file_opened fs self)(class_path self \<mapsto> header @ concat accs @ concat ms))
        self, Inl e)"
proof -
  have "list_all2 (\<lambda>m s. get_method_tests T self (fst m) (snd m) = Inr s) (methods self) stubs"
    using assms(5) by (simp add: assms(1) init_fields_def)
  from gen_unit_tests_class_tests_fail [OF assms(4) this assms(6)] show ?thesis
    unfolding GenClass_class_written [OF assms(1-3)] .
qed

section \<open>Templates that cannot be loaded\<close>

lemma get_class_template:
  "get_class T self = Inl e \<longleftrightarrow> T ''class'' = None \<and> e = FileNotFoundError"
  by (auto simp: get_class_def load_template_def split: prod.splits option.splits)

lemma get_accessors_template:
  "get_accessors T n t = Inl e \<longleftrightarrow> T ''accessors'' = None \<and> e = FileNotFoundError"
  by (auto simp: get_accessors_def load_template_def split: option.splits)

lemma get_method_tests_template:
  "get_method_tests T self n p = Inl e \<longleftrightarrow> T ''methods_tests'' = None \<and> e = FileNotFoundError"
  by (auto simp: get_method_tests_def load_template_def Let_def split: option.splits)

lemma get_class_tests_template:
  "get_class_tests T self s = Inl e \<longleftrightarrow> T ''tests'' = None \<and> e = FileNotFoundError"
  by (auto simp: get_class_tests_def load_template_def split: option.splits)

lemma get_method_no_colon:
  "\<exists>tok \<in> set toks. CHR '':'' \<notin> set tok \<Longrightarrow> get_method T n toks = Inl AttributeError"
  by (simp add: get_method_def get_methods_strings_no_colon)

lemma get_method_template:
  assumes "\<forall>tok \<in> set toks. CHR '':'' \<in> set tok" and "T ''methods'' = None"
  shows "get_method T n toks = Inl FileNotFoundError"
proof -
  from parse_param_all [OF assms(1)] obtain es where "map parse_param toks = map Inr es" ..
  from get_methods_strings_total [OF this] show ?thesis
    by (simp add: get_method_def load_template_def assms(2))
qed

lemma all_accessors_render:
  assumes "attrs = [] \<or> T ''accessors'' \<noteq> None"
  shows "\<exists>accs. list_all2 (\<lambda>a s. get_accessors T (fst a) (snd a) = Inr s) attrs accs"
proof -
  have "\<forall>a \<in> set attrs. \<exists>s. get_accessors T (fst a) (snd a) = Inr s"
  proof
    fix a assume "a \<in> set attrs"
    then have "attrs \<noteq> []"
      by auto
    with assms obtain t where "T ''accessors'' = Some t"
      by auto
    then show "\<exists>s. get_accessors T (fst a) (snd a) = Inr s"
      by (simp add: get_accessors_def load_template_def)
  qed
  then show ?thesis
    by (rule list_all2_ex)
qed

lemma all_stubs_render:
  assumes "meths = [] \<or> T ''methods_tests'' \<noteq> None"
  shows "\<exists>stubs. list_all2 (\<lambda>m s. get_method_tests T self (fst m) (snd m) = Inr s) meths stubs"
proof -
  have "\<forall>m \<in> set meths. \<exists>s. get_method_tests T self (fst m) (snd m) = Inr s"
  proof
    fix m assume "m \<in> set meths"
    then have "meths \<noteq> []"
      by auto
    with assms obtain t where "T ''methods_tests'' = Some t"
      by auto
    then show "\<exists>s. get_method_tests T self (fst m) (snd m) = Inr s"
      by (simp add: get_method_tests_def load_template_def Let_def)
  qed
  then show ?thesis
    by (rule list_all2_ex)
qed
section \<open>Claims\<close>

text \<open>
  C1 (as stated): the class name is the stem split on \<open>_\<close> with only the first
  character of each segment capitalized and every other character untouched.
  \<open>str.capitalize\<close> also lower-cases the rest of the segment, so the stem \<open>aB\<close> gives
  \<open>Ab\<close>, not \<open>AB\<close>.
\<close>

theorem C1_counterexample:
  "name_class_of ''aB'' = ''Ab'' \<and> spec_derive_class_name ''aB'' = ''AB''
   \<and> name_class_of ''aB'' \<noteq> spec_derive_class_name ''aB''"
  by (simp add: name_class_of_def spec_derive_class_name_def upper_char_def lower_char_def
      char_of_eq_iff)

text \<open>
  C1 (amended): for every file stem of ASCII characters, the class name is obtained by
  splitting the stem on \<open>_\<close>, upper-casing the first character of each segment and
  lower-casing every other character of the segment, and concatenating the segments with
  no separator; that is, it is the specification's derivation applied to the lower-cased
  stem, and it is the specification's derivation itself on a stem that has no upper-case
  letter. The empty stem yields the empty string and a stem of underscores only yields
  the empty string.
\<close>

theorem C1_name_class:
  assumes "ascii_text stem"
  shows "name_class_of stem = spec_derive_class_name (map lower_char stem)
   \<and> (list_all (\<lambda>c. lower_char c = c) stem \<longrightarrow> name_class_of stem = spec_derive_class_name stem)
   \<and> name_class_of [] = []
   \<and> name_class_of (replicate n (CHR ''_'')) = []"
proof -
  have "map lower_char stem = stem" if "list_all (\<lambda>c. lower_char c = c) stem"
    using that by (induction stem) auto
  then have "list_all (\<lambda>c. lower_char c = c) stem \<longrightarrow>
      name_class_of stem = spec_derive_class_name stem"
    by (simp add: name_class_of_lower)
  moreover have "name_class_of [] = []"
    by (simp add: name_class_of_def)
  ultimately show ?thesis
    using name_class_of_lower [of stem] name_class_of_underscores [of n] by blast
qed

theorem C1_name_class_witness:
  "ascii_text ''point_3d''
   \<and> list_all (\<lambda>c. lower_char c = c) ''point_3d''
   \<and> name_class_of ''point_3d'' = ''Point3d''
   \<and> spec_derive_class_name ''point_3d'' = ''Point3d''
   \<and> name_class_of ''foo__bar'' = ''FooBar''
   \<and> name_class_of (replicate 3 (CHR ''_'')) = []"
proof -
  have a: "ascii_text ''point_3d''"
    by (simp add: ascii_text_def)
  from C1_name_class [OF a, of 3] a show ?thesis
    by (simp add: name_class_of_def spec_derive_class_name_def upper_char_def lower_char_def
        char_of_eq_iff)
qed













text \<open>
  C6: the \<open>{params}\<close> of a test stub lists the parameter names, each derived as in the
  parameter parser (the part before the \<open>:\<close>, trimmed), the last raw token excluded.
  The code takes the part before the first \<open>:\<close> without trimming it: for
  \<open>a: int, b: str, return: None\<close> the second name is emitted as \<open> b\<close>, with the blank
  that follows the comma, where the parser's name is \<open>b\<close>.
\<close>

theorem C6_names_not_trimmed:
  "get_method_tests [''methods_tests'' \<mapsto> ''{params}'']
      (init_fields ''point'' [] [] []) ''m'' ''a: int, b: str, return: None''
     = Inr (''a,'' @ [CHR 0x0A] @ ''        #     b'')
   \<and> map parse_param (butlast (split_on (CHR '','') ''a: int, b: str, return: None''))
     = [Inr (''a'', ''int'', None), Inr (''b'', ''str'', None)]"
  by (simp add: get_method_tests_def load_template_def set_tab_eval init_fields_def
      parse_param_takeWhile strip_def is_space_def)

text \<open>
  C7: the rendered class text has a fixed order: the header block first, then one
  accessor block per attribute in attribute order, then one method block per method in
  method order. (The class file is written when the operating system lets the folder be
  made and the files be opened, and every block renders.)
\<close>

theorem C7_output_order:
  assumes "can_write_class E self"
    and "get_class T self = Inr header"
    and "list_all2 (\<lambda>a s. get_accessors T (fst a) (snd a) = Inr s) (attributes self) accs"
    and "list_all2 (\<lambda>m s. get_method T (fst m) (split_on (CHR '','') (snd m)) = Inr s)
           (methods self) meths"
  shows "\<exists>fs'. gen_class E T self fs = (fs', Inr ())
    \<and> fs' (class_path self) = Some (header @ concat accs @ concat meths)"
  unfolding gen_class_ok [OF assms] by simp

theorem C7_output_order_witness:
  "\<exists>fs'. gen_class permissive
      [''class'' \<mapsto> ''class {class_name}:'',
       ''accessors'' \<mapsto> ''[{attribute_name}: {attribute_type}]'',
       ''methods'' \<mapsto> ''<{method_name}({method_params}) -> {return_type}>'']
      (init_fields ''shape'' [(''x'', ''int''), (''y'', ''int'')]
         [(''area'', ''return: float''), (''perimeter'', ''unit: str, return: float'')] [])
      Map.empty = (fs', Inr ())
    \<and> fs' ''./gen_files/shape.py''
        = Some ''class Shape:[x: int][y: int]<area() -> float><perimeter(unit: str) -> float>''"
proof -
  let ?T = "[''class'' \<mapsto> ''class {class_name}:'',
       ''accessors'' \<mapsto> ''[{attribute_name}: {attribute_type}]'',
       ''methods'' \<mapsto> ''<{method_name}({method_params}) -> {return_type}>'']"
  let ?self = "init_fields ''shape'' [(''x'', ''int''), (''y'', ''int'')]
         [(''area'', ''return: float''), (''perimeter'', ''unit: str, return: float'')] []"
  have h: "get_class ?T ?self = Inr ''class Shape:''"
    by (simp add: get_class_def get_attributes_strings_def load_template_def init_fields_def
        name_class_of_def upper_char_def lower_char_def char_of_eq_iff)
  have a: "list_all2 (\<lambda>a s. get_accessors ?T (fst a) (snd a) = Inr s) (attributes ?self)
      [''[x: int]'', ''[y: int]'']"
    by (simp add: get_accessors_def load_template_def init_fields_def)
  have m: "list_all2 (\<lambda>m s. get_method ?T (fst m) (split_on (CHR '','') (snd m)) = Inr s)
      (methods ?self) [''<area() -> float>'', ''<perimeter(unit: str) -> float>'']"
    by (simp add: get_method_def get_methods_strings_def get_methods_dictionary_def
        parse_param_takeWhile strip_def is_space_def set_tab_eval msg_desc_def Let_def
        load_template_def init_fields_def)
  have w: "can_write_class permissive ?self"
    by (simp add: can_write_class_def permissive_def)
  from C7_output_order [OF w h a m, of Map.empty] show ?thesis
    by (simp add: class_path_def PATH_GEN_FILES_def init_fields_def)
qed

text \<open>
  C10: the generated class text and test text do not depend on the \<open>inherit\<close>
  argument: the value is recorded in the object at construction and no renderer reads
  it, so two constructions that differ only in \<open>inherit\<close> write the same files and end
  the same way.
\<close>

theorem C10_inherit_not_rendered:
  "GenClass E T nf attrs meths inh1 fs = GenClass E T nf attrs meths inh2 fs
   \<and> inherit (init_fields nf attrs meths inh1)
       = (if inh1 \<noteq> [] then ''('' @ inh1 @ ''):'' else '':'')"
proof -
  have "init_fields nf attrs meths inh1
      = (init_fields nf attrs meths inh2)\<lparr>inherit := inherit (init_fields nf attrs meths inh1)\<rparr>"
    by (simp add: init_fields_def)
  then have "gen_class E T (init_fields nf attrs meths inh1) = gen_class E T (init_fields nf attrs meths inh2)"
    and "gen_unit_tests E T (init_fields nf attrs meths inh1)
      = gen_unit_tests E T (init_fields nf attrs meths inh2)"
    by (metis gen_class_obj_inherit_irrelevant(1) ext,
        metis gen_class_obj_inherit_irrelevant(2) ext)
  then have "GenClass E T nf attrs meths inh1 fs = GenClass E T nf attrs meths inh2 fs"
    by (simp only: GenClass_def Let_def)
  moreover have "inherit (init_fields nf attrs meths inh1)
       = (if inh1 \<noteq> [] then ''('' @ inh1 @ ''):'' else '':'')"
    by (simp add: init_fields_def)
  ultimately show ?thesis ..
qed

theorem C10_inherit_not_rendered_witness:
  "GenClass permissive [''class'' \<mapsto> ''class {class_name}{inherit}''] ''point'' [] []
       ''Base'' Map.empty
     = GenClass permissive [''class'' \<mapsto> ''class {class_name}{inherit}''] ''point'' [] []
         [] Map.empty
   \<and> inherit (init_fields ''point'' [] [] ''Base'') = ''(Base):''"
  using C10_inherit_not_rendered
    [where E = permissive and T = "[''class'' \<mapsto> ''class {class_name}{inherit}'']" and nf = "''point''"
       and attrs = "[]" and meths = "[]" and ?inh1.0 = "''Base''" and ?inh2.0 = "[]"
       and fs = Map.empty]
  by simp

end
